theory Spec2Isabelle
  imports Main "HOL-Library.Char_ord" "HOL-Library.List_Lexorder"
begin

section \<open>Data model\<close>

text \<open>
  The structs of \<^verbatim>\<open>main.go\<close>. Go strings are byte sequences, here \<^typ>\<open>string\<close>;
  \<^verbatim>\<open>len\<close> counts bytes and \<^verbatim>\<open><\<close> compares bytewise, which is the lexicographic
  order on \<^typ>\<open>char list\<close>. A nil slice and an empty slice are both \<^term>\<open>[]\<close>: the
  program only ranges over, appends to and takes the length of its slices.
  \<^verbatim>\<open>Constraint\<close> embeds \<^verbatim>\<open>TableConstraint\<close>, so it is the record extension;
  \<^verbatim>\<open>c.TableConstraint\<close> is \<open>TableConstraint.truncate c\<close>.
\<close>

record Column =
  Name :: string
  Type :: string
  Comment :: string
  Unique :: bool

record TableConstraint =
  Columns :: "string list"
  RemoteOwner :: string
  RemoteTable :: string
  RemoteName :: string

record Table =
  Owner :: string
  Name :: string
  Comment :: string
  Columns :: "Column list"
  Constraints :: "TableConstraint list"

record Constraint = TableConstraint +
  Owner :: string
  Name :: string
  Type :: string
  Table :: string

text \<open>
  What can go wrong: the errors the program returns, as values. A run-time panic
  (an index out of range) is the result \<^term>\<open>None\<close> of the functions that can
  reach one.
\<close>

datatype error = QueryFailed | ScanFailed | FileFailed | DecodeFailed | WriteFailed

section \<open>Library functions the program calls\<close>

text \<open>
  \<^verbatim>\<open>strings.Join\<close>, and \<^verbatim>\<open>strings.SplitN\<close> for a separator of one byte
  (the program splits on \<^verbatim>\<open>"_"\<close> only): at most \<open>n\<close> parts, the last one the
  unsplit remainder; no part for \<open>n = 0\<close>.
\<close>

fun Join :: "string list \<Rightarrow> string \<Rightarrow> string" where
  "Join [] sep = []"
| "Join [x] sep = x"
| "Join (x # y # ys) sep = x @ sep @ Join (y # ys) sep"

fun SplitN :: "string \<Rightarrow> char \<Rightarrow> nat \<Rightarrow> string list" where
  "SplitN s sep 0 = []"
| "SplitN s sep (Suc 0) = [s]"
| "SplitN s sep (Suc (Suc n)) =
     (if sep \<in> set s
      then takeWhile (\<lambda>c. c \<noteq> sep) s # SplitN (tl (dropWhile (\<lambda>c. c \<noteq> sep) s)) sep (Suc n)
      else [s])"

text \<open>
  A slice index \<^verbatim>\<open>xs[i]\<close>: out of range, the Go run time panics.
\<close>

definition index :: "'a list \<Rightarrow> nat \<Rightarrow> 'a option" where
  "index xs i = (if i < length xs then Some (xs ! i) else None)"

section \<open>Node identifiers\<close>

text \<open>
  \<^verbatim>\<open>const Dot = "__"\<close>,
  \<^verbatim>\<open>var replDot = strings.NewReplacer(".", Dot, "$", "_")\<close> and
  \<^verbatim>\<open>func name(s ...string) string { return replDot.Replace(strings.Join(s, Dot)) }\<close>.
  Both patterns of the replacer are single bytes, so it rewrites the string byte by
  byte, left to right, and never looks at what it has written.
\<close>

definition Dot :: string where
  "Dot = ''__''"

definition replDot :: "string \<Rightarrow> string" where
  "replDot s =
     concat (map (\<lambda>c. if c = CHR ''.'' then Dot else if c = CHR ''$'' then ''_'' else [c]) s)"

definition name :: "string list \<Rightarrow> string" where
  "name s = replDot (Join s Dot)"

section \<open>The group key\<close>

text \<open>
  \<^verbatim>\<open>func grp(s string) string\<close>: the loop over
  \<^verbatim>\<open>strings.SplitN(s, "_", 3)\<close> with its index, returning from inside the loop.
\<close>

fun grp_loop :: "string \<Rightarrow> nat \<Rightarrow> string list \<Rightarrow> string" where
  "grp_loop s i [] = s"
| "grp_loop s i (part # parts) =
     (if i \<ge> 1 \<and> length part > 2 then part else grp_loop s (Suc i) parts)"

definition grp :: "string \<Rightarrow> string" where
  "grp s = grp_loop s 0 (SplitN s (CHR ''_'') 3)"

section \<open>The comparators of the two sort passes\<close>

text \<open>
  \<^verbatim>\<open>byRankSize.Less\<close> and \<^verbatim>\<open>byNameGroup.Less\<close>, on the two tables
  \<^verbatim>\<open>x[i]\<close> and \<^verbatim>\<open>x[j]\<close>, branch by branch.
\<close>

definition byRankSize_Less :: "Table \<Rightarrow> Table \<Rightarrow> bool" where
  "byRankSize_Less xi xj =
     (if length (Constraints xi) < length (Constraints xj) then True
      else if length (Constraints xi) > length (Constraints xj) then False
      else length (Table.Columns xi) < length (Table.Columns xj))"

definition byNameGroup_Less :: "Table \<Rightarrow> Table \<Rightarrow> bool" where
  "byNameGroup_Less xi xj =
     (if Table.Owner xi < Table.Owner xj then True
      else if Table.Owner xi > Table.Owner xj then True
      else if grp (Table.Name xi) < grp (Table.Name xj) then True
      else if grp (Table.Name xi) > grp (Table.Name xj) then False
      else Table.Name xi < Table.Name xj)"

section \<open>The rest of the library, as parameters\<close>

text \<open>
  The program calls \<^verbatim>\<open>strings.TrimSpace\<close>, \<^verbatim>\<open>wordwrap.WrapString\<close>,
  \<^verbatim>\<open>html.EscapeString\<close> and the \<^verbatim>\<open>%q\<close> verb of \<^verbatim>\<open>fmt\<close>
  (\<^verbatim>\<open>strconv.Quote\<close>). None of them is code of this repository and no property
  below depends on what they compute, so they are parameters of the model.
\<close>

record golib =
  TrimSpace :: "string \<Rightarrow> string"
  WrapString :: "string \<Rightarrow> nat \<Rightarrow> string"
  EscapeString :: "string \<Rightarrow> string"
  Quote :: "string \<Rightarrow> string"

text \<open>
  An instance, to evaluate the model on concrete inputs. It is what the four functions
  compute on printable ASCII text: white space trimmed at both ends, the five
  characters of HTML escaped, double quote and backslash escaped between double
  quotes; wrapping leaves a text without white space as it is.
\<close>

definition is_space :: "char \<Rightarrow> bool" where
  "is_space c = (c \<in> set [CHR 0x09, CHR 0x0A, CHR 0x0B, CHR 0x0C, CHR 0x0D, CHR 0x20])"

definition ascii_lib :: golib where
  "ascii_lib =
     \<lparr> TrimSpace = (\<lambda>s. rev (dropWhile is_space (rev (dropWhile is_space s)))),
       WrapString = (\<lambda>s lim. s),
       EscapeString = (\<lambda>s. concat (map (\<lambda>c.
          if c = CHR ''&'' then ''&amp;''
          else if c = CHR 0x27 then ''&#39;''
          else if c = CHR ''<'' then ''&lt;''
          else if c = CHR ''>'' then ''&gt;''
          else if c = CHR 0x22 then ''&#34;''
          else [c]) s)),
       Quote = (\<lambda>s. CHR 0x22 # concat (map (\<lambda>c.
          if c = CHR 0x22 then [CHR 0x5C, CHR 0x22]
          else if c = CHR 0x5C then [CHR 0x5C, CHR 0x5C]
          else [c]) s) @ [CHR 0x22]) \<rparr>"

section \<open>Reading the rows\<close>

text \<open>
  A query either fails or yields its rows; \<^verbatim>\<open>rows.Scan\<close> either fails or
  yields the fields of the row, in the order of the \<^verbatim>\<open>SELECT\<close> list.
\<close>

datatype 'r scanned = Row 'r | ScanError

datatype 'r query = QueryError | Rows "'r scanned list"

record col_row =
  owner :: string
  table_name :: string
  column_name :: string
  data_type :: string
  tab_comment :: string
  col_comment :: string

record cons_row =
  owner :: string
  constraint_name :: string
  constraint_type :: string
  table_name :: string
  column_name :: string
  r_owner :: string
  r_table_name :: string
  r_pk :: string

text \<open>
  \<^verbatim>\<open>readTables\<close>. \<open>column_of\<close> and \<open>table_of\<close> are the \<^verbatim>\<open>c\<close> and
  \<^verbatim>\<open>ta\<close> of one iteration, after the two \<^verbatim>\<open>TrimSpace\<close> calls and
  \<^verbatim>\<open>ta.Columns = []Column{c}\<close>; \<open>zero_Table\<close> is \<^verbatim>\<open>var tp Table\<close>. The loop
  carries \<^verbatim>\<open>tables\<close> and \<^verbatim>\<open>tp\<close>; its three \<^verbatim>\<open>continue\<close> branches are
  the three recursive calls.
\<close>

definition column_of :: "golib \<Rightarrow> col_row \<Rightarrow> Column" where
  "column_of L r =
     \<lparr> Column.Name = col_row.column_name r, Column.Type = data_type r,
       Column.Comment = TrimSpace L (col_comment r), Unique = False \<rparr>"

definition table_of :: "golib \<Rightarrow> col_row \<Rightarrow> Table" where
  "table_of L r =
     \<lparr> Table.Owner = col_row.owner r, Table.Name = col_row.table_name r,
       Table.Comment = TrimSpace L (tab_comment r),
       Table.Columns = [column_of L r], Constraints = [] \<rparr>"

definition zero_Table :: Table where
  "zero_Table =
     \<lparr> Table.Owner = [], Table.Name = [], Table.Comment = [], Table.Columns = [],
       Constraints = [] \<rparr>"

fun readTables_loop ::
  "golib \<Rightarrow> col_row scanned list \<Rightarrow> Table list \<Rightarrow> Table \<Rightarrow> Table list \<times> error option" where
  "readTables_loop L [] tables tp =
     (if Table.Name tp \<noteq> [] then (tables @ [tp], None) else (tables, None))"
| "readTables_loop L (ScanError # rows) tables tp = (tables, Some ScanFailed)"
| "readTables_loop L (Row r # rows) tables tp =
     (if Table.Name tp = [] then readTables_loop L rows tables (table_of L r)
      else if \<not> (Table.Owner tp = Table.Owner (table_of L r)
                 \<and> Table.Name tp = Table.Name (table_of L r))
      then readTables_loop L rows (tables @ [tp]) (table_of L r)
      else readTables_loop L rows tables
             (tp\<lparr>Table.Columns := Table.Columns tp @ [column_of L r]\<rparr>))"

definition readTables :: "golib \<Rightarrow> col_row query \<Rightarrow> Table list \<times> error option" where
  "readTables L q =
     (case q of QueryError \<Rightarrow> ([], Some QueryFailed)
      | Rows rows \<Rightarrow> readTables_loop L rows [] zero_Table)"

text \<open>
  \<^verbatim>\<open>readConstraints\<close>. The result is a Go map from \<^verbatim>\<open>owner.table\<close> to a
  slice; reading a key that is absent gives the nil slice, which is \<open>lookup\<close>.
\<close>

definition lookup :: "(string \<rightharpoonup> 'a list) \<Rightarrow> string \<Rightarrow> 'a list" where
  "lookup m k = (case m k of None \<Rightarrow> [] | Some v \<Rightarrow> v)"

definition constraint_of :: "cons_row \<Rightarrow> Constraint" where
  "constraint_of r =
     \<lparr> TableConstraint.Columns = [cons_row.column_name r], RemoteOwner = r_owner r,
       RemoteTable = r_table_name r, RemoteName = r_pk r,
       Constraint.Owner = cons_row.owner r, Constraint.Name = constraint_name r,
       Constraint.Type = constraint_type r, Constraint.Table = cons_row.table_name r \<rparr>"

definition zero_Constraint :: Constraint where
  "zero_Constraint =
     \<lparr> TableConstraint.Columns = [], RemoteOwner = [], RemoteTable = [], RemoteName = [],
       Constraint.Owner = [], Constraint.Name = [], Constraint.Type = [],
       Constraint.Table = [] \<rparr>"

definition same_constraint :: "Constraint \<Rightarrow> Constraint \<Rightarrow> bool" where
  "same_constraint ca cp =
     (Constraint.Owner ca = Constraint.Owner cp \<and> Constraint.Name ca = Constraint.Name cp
      \<and> Constraint.Type ca = Constraint.Type cp \<and> Constraint.Table ca = Constraint.Table cp
      \<and> RemoteOwner ca = RemoteOwner cp \<and> RemoteTable ca = RemoteTable cp
      \<and> RemoteName ca = RemoteName cp)"

definition flush :: "(string \<rightharpoonup> Constraint list) \<Rightarrow> Constraint \<Rightarrow> (string \<rightharpoonup> Constraint list)" where
  "flush constraints cp =
     (let k = Constraint.Owner cp @ ''.'' @ Constraint.Table cp
      in constraints(k \<mapsto> lookup constraints k @ [cp]))"

fun readConstraints_loop ::
  "cons_row scanned list \<Rightarrow> (string \<rightharpoonup> Constraint list) \<Rightarrow> Constraint
   \<Rightarrow> (string \<rightharpoonup> Constraint list) \<times> error option" where
  "readConstraints_loop [] constraints cp =
     (if Constraint.Name cp \<noteq> [] then (flush constraints cp, None) else (constraints, None))"
| "readConstraints_loop (ScanError # rows) constraints cp = (constraints, Some ScanFailed)"
| "readConstraints_loop (Row r # rows) constraints cp =
     (if Constraint.Name cp = [] then readConstraints_loop rows constraints (constraint_of r)
      else if \<not> same_constraint (constraint_of r) cp
      then readConstraints_loop rows (flush constraints cp) (constraint_of r)
      else readConstraints_loop rows constraints
             (cp\<lparr>TableConstraint.Columns := TableConstraint.Columns cp @ [cons_row.column_name r]\<rparr>))"

definition readConstraints ::
  "cons_row query \<Rightarrow> (string \<rightharpoonup> Constraint list) \<times> error option" where
  "readConstraints q =
     (case q of QueryError \<Rightarrow> (Map.empty, Some QueryFailed)
      | Rows rows \<Rightarrow> readConstraints_loop rows Map.empty zero_Constraint)"

section \<open>Assembling the graph\<close>

text \<open>
  The loop of \<^verbatim>\<open>getTables\<close> over the tables. For one table \<^verbatim>\<open>t\<close>, the inner
  loop runs over \<^verbatim>\<open>constraints[t.Owner+"."+t.Name]\<close> and carries \<^verbatim>\<open>t\<close> and
  the set \<^verbatim>\<open>uCols\<close> (a Go map to the empty struct); then every column gets its
  flag, and the table is stored back.
\<close>

fun constraints_loop :: "Constraint list \<Rightarrow> Table \<Rightarrow> string set \<Rightarrow> Table \<times> string set" where
  "constraints_loop [] t uCols = (t, uCols)"
| "constraints_loop (c # cs) t uCols =
     (if Constraint.Type c = ''R''
      then constraints_loop cs (t\<lparr>Constraints := Constraints t @ [TableConstraint.truncate c]\<rparr>) uCols
      else if Constraint.Type c = ''P'' \<or> Constraint.Type c = ''U''
      then constraints_loop cs t (fold insert (TableConstraint.Columns c) uCols)
      else constraints_loop cs t uCols)"

definition assemble_table :: "(string \<rightharpoonup> Constraint list) \<Rightarrow> Table \<Rightarrow> Table" where
  "assemble_table constraints t =
     (case constraints_loop (lookup constraints (Table.Owner t @ ''.'' @ Table.Name t)) t {} of
        (t', uCols) \<Rightarrow>
          t'\<lparr>Table.Columns := map (\<lambda>c. c\<lparr>Unique := Column.Name c \<in> uCols\<rparr>) (Table.Columns t')\<rparr>)"

definition assemble :: "(string \<rightharpoonup> Constraint list) \<Rightarrow> Table list \<Rightarrow> Table list" where
  "assemble constraints tables = map (assemble_table constraints) tables"

section \<open>Sorting\<close>

text \<open>
  \<^verbatim>\<open>sort.Sort\<close> and \<^verbatim>\<open>sort.Stable\<close> see the slice through
  \<^verbatim>\<open>Len\<close>, \<^verbatim>\<open>Less\<close> and \<^verbatim>\<open>Swap\<close> only, so all they do to it is a
  sequence of \<^verbatim>\<open>Swap\<close> calls. Which sequence is the library's business: a
  \<open>sorter\<close> gives it, from the comparator and the slice. \<open>Swap\<close> is
  \<^verbatim>\<open>x[i], x[j] = x[j], x[i]\<close>, which panics on an index out of range.
\<close>

type_synonym sorter = "(Table \<Rightarrow> Table \<Rightarrow> bool) \<Rightarrow> Table list \<Rightarrow> (nat \<times> nat) list"

definition Swap :: "Table list \<Rightarrow> nat \<Rightarrow> nat \<Rightarrow> Table list option" where
  "Swap x i j =
     (case index x j of None \<Rightarrow> None
      | Some xj \<Rightarrow> (case index x i of None \<Rightarrow> None
      | Some xi \<Rightarrow> Some (x[i := xj, j := xi])))"

fun swaps :: "(nat \<times> nat) list \<Rightarrow> Table list \<Rightarrow> Table list option" where
  "swaps [] x = Some x"
| "swaps ((i, j) # ss) x = (case Swap x i j of None \<Rightarrow> None | Some x' \<Rightarrow> swaps ss x')"

definition Reverse :: "(Table \<Rightarrow> Table \<Rightarrow> bool) \<Rightarrow> Table \<Rightarrow> Table \<Rightarrow> bool" where
  "Reverse lt xi xj = lt xj xi"

text \<open>
  Two sorters to run the model with: one that never swaps, and one step of an
  insertion sort, which swaps the first two elements when they are out of order.
\<close>

definition no_swap :: sorter where
  "no_swap lt x = []"

definition first_two :: sorter where
  "first_two lt x = (case x of a # b # rest \<Rightarrow> if lt b a then [(1, 0)] else [] | _ \<Rightarrow> [])"

section \<open>getTables\<close>

text \<open>
  Where the tables come from: the database (the two queries, and the outcome of
  writing the snapshot: \<^term>\<open>None\<close> when none is asked for or the writing
  succeeds), or a snapshot file, which decodes to a constraint map and a table list
  or fails: to open or to decode the map, with no table then, or to decode the table
  list, with the tables decoded until then, which \<^verbatim>\<open>getTables\<close> returns beside
  the error. The two readers run concurrently and \<^verbatim>\<open>grp.Wait\<close> returns the error
  that came first; when both fail the model returns the constraint reader's.
\<close>

datatype source =
    Database "cons_row query" "col_row query" "error option"
  | SnapshotFile "string \<rightharpoonup> Constraint list" "Table list"
  | BadSnapshot "Table list" error

fun load :: "golib \<Rightarrow> source \<Rightarrow> (string \<rightharpoonup> Constraint list) \<times> Table list \<times> error option" where
  "load L (Database cq tq written) =
     (case readConstraints cq of (constraints, cerr) \<Rightarrow>
      case readTables L tq of (tables, terr) \<Rightarrow>
        (constraints, tables,
         case cerr of Some e \<Rightarrow> Some e
         | None \<Rightarrow> (case terr of Some e \<Rightarrow> Some e | None \<Rightarrow> written)))"
| "load L (SnapshotFile constraints tables) = (constraints, tables, None)"
| "load L (BadSnapshot tables e) = (Map.empty, tables, Some e)"

definition getTables ::
  "sorter \<Rightarrow> sorter \<Rightarrow> golib \<Rightarrow> source \<Rightarrow> (Table list \<times> error option) option" where
  "getTables sort_Sort sort_Stable L src =
     (case load L src of
        (constraints, tables, Some e) \<Rightarrow> Some (tables, Some e)
      | (constraints, tables, None) \<Rightarrow>
          (case swaps (sort_Sort (Reverse byRankSize_Less) (assemble constraints tables))
                      (assemble constraints tables) of
             None \<Rightarrow> None
           | Some ranked \<Rightarrow>
               (case swaps (sort_Stable byNameGroup_Less ranked) ranked of
                  None \<Rightarrow> None
                | Some grouped \<Rightarrow> Some (grouped, None))))"

section \<open>Rendering\<close>

text \<open>
  A renderer writes into a \<^verbatim>\<open>bufio.Writer\<close> and returns what the final
  \<^verbatim>\<open>Flush\<close> returns; the writes before it report no error to the renderer. The
  model carries the bytes written so far, and a writer is what it answers to the whole
  document: \<^term>\<open>None\<close> when it takes it, an error otherwise. A renderer returns
  the document it wrote and that answer, or \<^term>\<open>None\<close> on a panic.
\<close>

type_synonym writer = "string \<Rightarrow> error option"

abbreviation dq :: char where
  "dq \<equiv> CHR 0x22"

abbreviation tab :: char where
  "tab \<equiv> CHR 0x09"

text \<open>\<^verbatim>\<open>strings.Replace(s, "\n", "<BR/>\n", -1)\<close>.\<close>

definition newline_BR :: "string \<Rightarrow> string" where
  "newline_BR s = concat (map (\<lambda>c. if c = CHR 0x0A then ''<BR/>\<newline>'' else [c]) s)"

subsection \<open>The box diagram\<close>

text \<open>
  \<^verbatim>\<open>PrintNodeDOT\<close>: the \<^verbatim>\<open>Fprintf\<close> of the table, one \<^verbatim>\<open>Fprintf\<close> per
  column, and the closing \<^verbatim>\<open>WriteString\<close>.
\<close>

definition node_head_DOT :: "golib \<Rightarrow> Table \<Rightarrow> string" where
  "node_head_DOT L t =
     ''  '' @ name [Table.Owner t, Table.Name t]
     @ '' [pencolor=white shape=box label=<<TABLE ALIGN='' @ dq # ''LEFT'' @ dq
     # ''><TR><TD ALIGN='' @ dq # ''CENTER'' @ dq # '' COLSPAN='' @ dq # ''3'' @ dq
     # ''><B>'' @ Table.Owner t @ ''.'' @ Table.Name t
     @ ''</B></TD></TR> <TR><TD COLSPAN='' @ dq # ''3'' @ dq # ''>''
     @ newline_BR (EscapeString L (WrapString L (Table.Comment t) 40))
     @ ''</TD></TR>\<newline>''"

definition column_row_DOT :: "golib \<Rightarrow> Column \<Rightarrow> string" where
  "column_row_DOT L col =
     ''<TR><TD PORT='' @ Quote L (Column.Name col) @ '' ALIGN='' @ dq # ''LEFT'' @ dq
     # (if Unique col then '' BGCOLOR='' @ dq # ''YELLOW'' @ dq # '' '' else [])
     @ ''>'' @ Column.Name col
     @ ''</TD><TD ALIGN='' @ dq # ''LEFT'' @ dq # ''>'' @ EscapeString L (Column.Type col)
     @ ''</TD><TD ALIGN='' @ dq # ''RIGHT'' @ dq # ''>''
     @ newline_BR (EscapeString L (WrapString L (Column.Comment col) 25))
     @ ''</TD></TR>\<newline>''"

fun columns_DOT :: "golib \<Rightarrow> Column list \<Rightarrow> string \<Rightarrow> string" where
  "columns_DOT L [] w = w"
| "columns_DOT L (col # cols) w = columns_DOT L cols (w @ column_row_DOT L col)"

definition PrintNodeDOT :: "golib \<Rightarrow> Table \<Rightarrow> string \<Rightarrow> string" where
  "PrintNodeDOT L t w =
     columns_DOT L (Table.Columns t) (w @ node_head_DOT L t) @ ''</TABLE>>];\<newline>''"

text \<open>
  \<^verbatim>\<open>PrintDOT\<close>. The first loop carries \<^verbatim>\<open>prevGrp\<close> and the buffer. The
  second is the loop over the tables around the loop over the constraints of one
  table; \<open>edge_DOT\<close> is its \<^verbatim>\<open>Fprintf\<close> with its five arguments.
\<close>

fun nodes_DOT :: "golib \<Rightarrow> Table list \<Rightarrow> string \<Rightarrow> string \<Rightarrow> string \<times> string" where
  "nodes_DOT L [] prevGrp bw = (prevGrp, bw)"
| "nodes_DOT L (t # ts) prevGrp bw =
     (if prevGrp = []
      then nodes_DOT L ts (grp (Table.Name t))
             (PrintNodeDOT L t (bw @ ''subgraph cluster_'' @ grp (Table.Name t) @ '' {\<newline>''))
      else if grp (Table.Name t) \<noteq> prevGrp
      then nodes_DOT L ts (grp (Table.Name t))
             (PrintNodeDOT L t
                (bw @ ''}\<newline>subgraph cluster_'' @ grp (Table.Name t) @ '' {\<newline>''))
      else nodes_DOT L ts prevGrp (PrintNodeDOT L t bw))"

definition edge_DOT :: "string \<Rightarrow> string \<Rightarrow> string \<Rightarrow> string \<Rightarrow> string \<Rightarrow> string" where
  "edge_DOT src sport dst dport label =
     ''  '' @ src @ '':'' @ sport @ '' -> '' @ dst @ '':'' @ dport
     @ '' [label='' @ label @ ''];\<newline>''"

fun constraints_DOT :: "golib \<Rightarrow> Table \<Rightarrow> TableConstraint list \<Rightarrow> string \<Rightarrow> string option" where
  "constraints_DOT L t [] bw = Some bw"
| "constraints_DOT L t (c # cs) bw =
     (case (if length (TableConstraint.Columns c) \<noteq> 0 then index (TableConstraint.Columns c) 0
            else Some [])
      of None \<Rightarrow> None
       | Some col \<Rightarrow>
           if RemoteTable c = [] then constraints_DOT L t cs bw
           else constraints_DOT L t cs
                  (bw @ edge_DOT (name [Table.Owner t, Table.Name t]) col
                          (name [RemoteOwner c, RemoteTable c]) col (Quote L (RemoteName c))))"

fun edges_DOT :: "golib \<Rightarrow> Table list \<Rightarrow> string \<Rightarrow> string option" where
  "edges_DOT L [] bw = Some bw"
| "edges_DOT L (t # ts) bw =
     (case constraints_DOT L t (Constraints t) bw of None \<Rightarrow> None
      | Some bw' \<Rightarrow> edges_DOT L ts bw')"

definition PrintDOT :: "golib \<Rightarrow> writer \<Rightarrow> Table list \<Rightarrow> (string \<times> error option) option" where
  "PrintDOT L w tables =
     (case nodes_DOT L tables [] ''digraph {\<newline>'' of (prevGrp, bw) \<Rightarrow>
      case edges_DOT L tables (if prevGrp \<noteq> [] then bw @ ''}\<newline>'' else bw) of
        None \<Rightarrow> None
      | Some bw' \<Rightarrow> Some (bw' @ ''\<newline>}\<newline>'', w (bw' @ ''\<newline>}\<newline>'')))"

subsection \<open>The generic graph\<close>

definition PrintNodeGML :: "golib \<Rightarrow> Table \<Rightarrow> string \<Rightarrow> string" where
  "PrintNodeGML L t w =
     w @ tab # ''node [\<newline>'' @ tab # tab # ''id '' @ name [Table.Owner t, Table.Name t]
     @ ''\<newline>'' @ tab # tab # EscapeString L (WrapString L (Table.Comment t) 40)
     @ ''\<newline>'' @ tab # '']\<newline>''"

fun nodes_GML :: "golib \<Rightarrow> Table list \<Rightarrow> string \<Rightarrow> string" where
  "nodes_GML L [] bw = bw"
| "nodes_GML L (t # ts) bw = nodes_GML L ts (PrintNodeGML L t bw)"

definition edge_GML :: "string \<Rightarrow> string \<Rightarrow> string \<Rightarrow> string \<Rightarrow> string \<Rightarrow> string" where
  "edge_GML src sport dst dport label =
     tab # ''edge [\<newline>'' @ tab # tab # ''source '' @ src @ '':'' @ sport
     @ ''\<newline>'' @ tab # tab # ''target '' @ dst @ '':'' @ dport
     @ ''\<newline>'' @ tab # tab # ''label '' @ label @ ''\<newline>'' @ tab # '']\<newline>''"

fun constraints_GML :: "golib \<Rightarrow> Table \<Rightarrow> TableConstraint list \<Rightarrow> string \<Rightarrow> string option" where
  "constraints_GML L t [] bw = Some bw"
| "constraints_GML L t (c # cs) bw =
     (case (if length (TableConstraint.Columns c) \<noteq> 0 then index (TableConstraint.Columns c) 0
            else Some [])
      of None \<Rightarrow> None
       | Some col \<Rightarrow>
           if RemoteTable c = [] then constraints_GML L t cs bw
           else constraints_GML L t cs
                  (bw @ edge_GML (name [Table.Owner t, Table.Name t]) col
                          (name [RemoteOwner c, RemoteTable c]) col (Quote L (RemoteName c))))"

fun edges_GML :: "golib \<Rightarrow> Table list \<Rightarrow> string \<Rightarrow> string option" where
  "edges_GML L [] bw = Some bw"
| "edges_GML L (t # ts) bw =
     (case constraints_GML L t (Constraints t) bw of None \<Rightarrow> None
      | Some bw' \<Rightarrow> edges_GML L ts bw')"

definition PrintGML :: "golib \<Rightarrow> writer \<Rightarrow> Table list \<Rightarrow> (string \<times> error option) option" where
  "PrintGML L w tables =
     (case edges_GML L tables (nodes_GML L tables ''graph [\<newline>'') of
        None \<Rightarrow> None
      | Some bw' \<Rightarrow> Some (bw' @ '']\<newline>'', w (bw' @ '']\<newline>'')))"

subsection \<open>The XML graph\<close>

text \<open>
  \<^verbatim>\<open>PrintGraphML\<close>, from its own text in the source: its first loop calls
  \<^verbatim>\<open>t.PrintNodeDOT\<close>. \<^verbatim>\<open>PrintNodeGraphML\<close> is in the source too; nothing
  calls it.
\<close>

fun nodes_GraphML :: "golib \<Rightarrow> Table list \<Rightarrow> string \<Rightarrow> string \<Rightarrow> string \<times> string" where
  "nodes_GraphML L [] prevGrp bw = (prevGrp, bw)"
| "nodes_GraphML L (t # ts) prevGrp bw =
     (if prevGrp = []
      then nodes_GraphML L ts (grp (Table.Name t))
             (PrintNodeDOT L t (bw @ ''subgraph cluster_'' @ grp (Table.Name t) @ '' {\<newline>''))
      else if grp (Table.Name t) \<noteq> prevGrp
      then nodes_GraphML L ts (grp (Table.Name t))
             (PrintNodeDOT L t
                (bw @ ''}\<newline>subgraph cluster_'' @ grp (Table.Name t) @ '' {\<newline>''))
      else nodes_GraphML L ts prevGrp (PrintNodeDOT L t bw))"

definition edge_GraphML :: "string \<Rightarrow> string \<Rightarrow> string \<Rightarrow> string \<Rightarrow> string \<Rightarrow> string" where
  "edge_GraphML src sport dst dport label =
     ''  '' @ src @ '':'' @ sport @ '' -> '' @ dst @ '':'' @ dport
     @ '' [label='' @ label @ ''];\<newline>''"

fun constraints_GraphML ::
  "golib \<Rightarrow> Table \<Rightarrow> TableConstraint list \<Rightarrow> string \<Rightarrow> string option" where
  "constraints_GraphML L t [] bw = Some bw"
| "constraints_GraphML L t (c # cs) bw =
     (case (if length (TableConstraint.Columns c) \<noteq> 0 then index (TableConstraint.Columns c) 0
            else Some [])
      of None \<Rightarrow> None
       | Some col \<Rightarrow>
           if RemoteTable c = [] then constraints_GraphML L t cs bw
           else constraints_GraphML L t cs
                  (bw @ edge_GraphML (name [Table.Owner t, Table.Name t]) col
                          (name [RemoteOwner c, RemoteTable c]) col (Quote L (RemoteName c))))"

fun edges_GraphML :: "golib \<Rightarrow> Table list \<Rightarrow> string \<Rightarrow> string option" where
  "edges_GraphML L [] bw = Some bw"
| "edges_GraphML L (t # ts) bw =
     (case constraints_GraphML L t (Constraints t) bw of None \<Rightarrow> None
      | Some bw' \<Rightarrow> edges_GraphML L ts bw')"

definition PrintGraphML :: "golib \<Rightarrow> writer \<Rightarrow> Table list \<Rightarrow> (string \<times> error option) option" where
  "PrintGraphML L w tables =
     (case nodes_GraphML L tables [] ''digraph {\<newline>'' of (prevGrp, bw) \<Rightarrow>
      case edges_GraphML L tables (if prevGrp \<noteq> [] then bw @ ''}\<newline>'' else bw) of
        None \<Rightarrow> None
      | Some bw' \<Rightarrow> Some (bw' @ ''\<newline>}\<newline>'', w (bw' @ ''\<newline>}\<newline>'')))"

definition PrintNodeGraphML :: "golib \<Rightarrow> Table \<Rightarrow> string \<Rightarrow> string" where
  "PrintNodeGraphML L t w =
     columns_DOT L (Table.Columns t) (w @ node_head_DOT L t) @ ''</TABLE>>];\<newline>''"

subsection \<open>Reading a document\<close>

text \<open>
  The edges of a table list, the way the specification words them: the constraints
  with a non-empty remote table, each with its table, in the order of the lists; and
  the port of an edge, the first local column name (the empty string when there is
  none).
\<close>

definition edge_pairs :: "Table list \<Rightarrow> (Table \<times> TableConstraint) list" where
  "edge_pairs tables =
     concat (map (\<lambda>t. map (Pair t) (filter (\<lambda>c. RemoteTable c \<noteq> []) (Constraints t))) tables)"

definition port :: "TableConstraint \<Rightarrow> string" where
  "port c = (case TableConstraint.Columns c of [] \<Rightarrow> [] | col # cols \<Rightarrow> col)"

text \<open>
  The nodes of a document, as text. A node block of the box diagram is the line of
  the table, one line per column and the closing line; \<open>cluster_blocks\<close> is the
  text between the first line of the document and its edges: the node blocks in the
  order of the tables, a cluster opened before a table when the table before it has
  another group key or none (an empty one), the cluster before it closed first when
  that table has a group key, and a cluster closed at the end when the last table has
  one. A node record of the generic graph is the identifier and the comment of the
  table.
\<close>

definition column_row_text :: "golib \<Rightarrow> Column \<Rightarrow> string" where
  "column_row_text L col =
     ''<TR><TD PORT='' @ Quote L (Column.Name col) @ '' ALIGN='' @ [dq] @ ''LEFT'' @ [dq]
     @ (if Unique col then '' BGCOLOR='' @ [dq] @ ''YELLOW'' @ [dq] @ '' '' else [])
     @ ''>'' @ Column.Name col
     @ ''</TD><TD ALIGN='' @ [dq] @ ''LEFT'' @ [dq] @ ''>'' @ EscapeString L (Column.Type col)
     @ ''</TD><TD ALIGN='' @ [dq] @ ''RIGHT'' @ [dq] @ ''>''
     @ newline_BR (EscapeString L (WrapString L (Column.Comment col) 25))
     @ ''</TD></TR>\<newline>''"

definition node_block_DOT :: "golib \<Rightarrow> Table \<Rightarrow> string" where
  "node_block_DOT L t =
     ''  '' @ name [Table.Owner t, Table.Name t]
     @ '' [pencolor=white shape=box label=<<TABLE ALIGN='' @ [dq] @ ''LEFT'' @ [dq]
     @ ''><TR><TD ALIGN='' @ [dq] @ ''CENTER'' @ [dq] @ '' COLSPAN='' @ [dq] @ ''3'' @ [dq]
     @ ''><B>'' @ Table.Owner t @ ''.'' @ Table.Name t
     @ ''</B></TD></TR> <TR><TD COLSPAN='' @ [dq] @ ''3'' @ [dq] @ ''>''
     @ newline_BR (EscapeString L (WrapString L (Table.Comment t) 40))
     @ ''</TD></TR>\<newline>''
     @ concat (map (column_row_text L) (Table.Columns t))
     @ ''</TABLE>>];\<newline>''"

fun cluster_blocks :: "golib \<Rightarrow> string \<Rightarrow> Table list \<Rightarrow> string" where
  "cluster_blocks L before [] = (if before \<noteq> [] then ''}\<newline>'' else [])"
| "cluster_blocks L before (t # ts) =
     (if before = [] then ''subgraph cluster_'' @ grp (Table.Name t) @ '' {\<newline>''
      else if grp (Table.Name t) \<noteq> before
      then ''}\<newline>subgraph cluster_'' @ grp (Table.Name t) @ '' {\<newline>''
      else [])
     @ node_block_DOT L t @ cluster_blocks L (grp (Table.Name t)) ts"

definition node_record_GML :: "golib \<Rightarrow> Table \<Rightarrow> string" where
  "node_record_GML L t =
     [tab] @ ''node [\<newline>'' @ [tab, tab] @ ''id '' @ name [Table.Owner t, Table.Name t]
     @ ''\<newline>'' @ [tab, tab] @ EscapeString L (WrapString L (Table.Comment t) 40)
     @ ''\<newline>'' @ [tab] @ '']\<newline>''"




definition XML_opens :: "string \<Rightarrow> bool" where
  "XML_opens doc = (case dropWhile is_space doc of [] \<Rightarrow> False | c # cs \<Rightarrow> c = CHR ''<'')"


text \<open>
  The document up to the edges: what the renderer has written when its edge loop
  starts.
\<close>

definition preamble_DOT :: "golib \<Rightarrow> Table list \<Rightarrow> string" where
  "preamble_DOT L tables =
     (case nodes_DOT L tables [] ''digraph {\<newline>'' of (prevGrp, bw) \<Rightarrow>
        if prevGrp \<noteq> [] then bw @ ''}\<newline>'' else bw)"

definition preamble_GML :: "golib \<Rightarrow> Table list \<Rightarrow> string" where
  "preamble_GML L tables = nodes_GML L tables ''graph [\<newline>''"

text \<open>
  Tables to render: one whose texts hold characters that need escaping and whose
  foreign key refers to itself, one whose only constraint has no remote table, and a
  foreign key without local columns.
\<close>

definition fk_without_columns :: TableConstraint where
  "fk_without_columns =
     \<lparr> TableConstraint.Columns = [], RemoteOwner = ''HR'', RemoteTable = ''DEPT'',
       RemoteName = ''DEPT_PK'' \<rparr>"

definition table_EMP :: Table where
  "table_EMP =
     \<lparr> Table.Owner = ''HR'', Table.Name = ''EMP'', Table.Comment = ''a<b&c'',
       Table.Columns = [\<lparr> Column.Name = ''ID'', Column.Type = ''NUMBER(10)'',
                          Column.Comment = [], Unique = True \<rparr>],
       Constraints = [\<lparr> TableConstraint.Columns = [''ID''], RemoteOwner = ''HR'',
                        RemoteTable = ''EMP'', RemoteName = [CHR ''x'', dq, CHR ''y''] \<rparr>] \<rparr>"

definition table_PK :: Table where
  "table_PK =
     \<lparr> Table.Owner = ''HR'', Table.Name = ''DEPT'', Table.Comment = [],
       Table.Columns = [],
       Constraints = [\<lparr> TableConstraint.Columns = [''ID''], RemoteOwner = [],
                        RemoteTable = [], RemoteName = [] \<rparr>] \<rparr>"

definition accept :: writer where
  "accept doc = None"

section \<open>The row merger, as the specification words it\<close>

text \<open>
  The specification's merger: cut the stream into its maximal runs of consecutive
  rows that share the entity key, and build one entity from each run, whose child
  list holds one item per row of the run, in the order of the rows. The key of a
  column row is (owner, table); the key of a constraint row is (owner, constraint
  name, type, table, remote owner, remote table, remote constraint name).
\<close>

function runs :: "('r \<Rightarrow> 'k) \<Rightarrow> 'r list \<Rightarrow> 'r list list" where
  "runs key [] = []"
| "runs key (x # xs) =
     (x # takeWhile (\<lambda>y. key y = key x) xs) # runs key (dropWhile (\<lambda>y. key y = key x) xs)"
  by pat_completeness auto
termination
  by (relation "measure (\<lambda>(key, xs). length xs)")
     (auto simp: length_dropWhile_le less_Suc_eq_le)

definition table_key :: "col_row \<Rightarrow> string \<times> string" where
  "table_key r = (col_row.owner r, col_row.table_name r)"

definition constraint_key ::
  "cons_row \<Rightarrow> string \<times> string \<times> string \<times> string \<times> string \<times> string \<times> string" where
  "constraint_key r =
     (cons_row.owner r, constraint_name r, constraint_type r, cons_row.table_name r,
      r_owner r, r_table_name r, r_pk r)"

fun table_of_run :: "golib \<Rightarrow> col_row list \<Rightarrow> Table" where
  "table_of_run L [] = zero_Table"
| "table_of_run L (r # rs) =
     \<lparr> Table.Owner = col_row.owner r, Table.Name = col_row.table_name r,
       Table.Comment = TrimSpace L (tab_comment r),
       Table.Columns = map (column_of L) (r # rs), Constraints = [] \<rparr>"

fun constraint_of_run :: "cons_row list \<Rightarrow> Constraint" where
  "constraint_of_run [] = zero_Constraint"
| "constraint_of_run (r # rs) =
     \<lparr> TableConstraint.Columns = map cons_row.column_name (r # rs), RemoteOwner = r_owner r,
       RemoteTable = r_table_name r, RemoteName = r_pk r,
       Constraint.Owner = cons_row.owner r, Constraint.Name = constraint_name r,
       Constraint.Type = constraint_type r, Constraint.Table = cons_row.table_name r \<rparr>"

definition map_key :: "Constraint \<Rightarrow> string" where
  "map_key c = Constraint.Owner c @ ''.'' @ Constraint.Table c"

definition key_of ::
  "Constraint \<Rightarrow> string \<times> string \<times> string \<times> string \<times> string \<times> string \<times> string" where
  "key_of c =
     (Constraint.Owner c, Constraint.Name c, Constraint.Type c, Constraint.Table c,
      RemoteOwner c, RemoteTable c, RemoteName c)"

text \<open>Rows to run the two readers on.\<close>

definition col_rows_HR :: "col_row list" where
  "col_rows_HR =
     [\<lparr> col_row.owner = ''HR'', table_name = ''DEPT'', column_name = ''ID'',
         data_type = ''NUMBER(10) NOT NULL'', tab_comment = '' departments '', col_comment = ''key'' \<rparr>,
      \<lparr> col_row.owner = ''HR'', table_name = ''DEPT'', column_name = ''NAME'',
         data_type = ''VARCHAR2(50)'', tab_comment = '' departments '', col_comment = [] \<rparr>,
      \<lparr> col_row.owner = ''HR'', table_name = ''EMP'', column_name = ''ID'',
         data_type = ''NUMBER(10) NOT NULL'', tab_comment = [], col_comment = [] \<rparr>,
      \<lparr> col_row.owner = ''HR'', table_name = ''EMP'', column_name = ''DEPT_ID'',
         data_type = ''NUMBER(10)'', tab_comment = [], col_comment = [] \<rparr>]"

definition cons_rows_HR :: "cons_row list" where
  "cons_rows_HR =
     [\<lparr> cons_row.owner = ''HR'', constraint_name = ''DEPT_PK'', constraint_type = ''P'',
         table_name = ''DEPT'', column_name = ''ID'', r_owner = [], r_table_name = [], r_pk = [] \<rparr>,
      \<lparr> cons_row.owner = ''HR'', constraint_name = ''EMP_DEPT_FK'', constraint_type = ''R'',
         table_name = ''EMP'', column_name = ''DEPT_ID'', r_owner = ''HR'',
         r_table_name = ''DEPT'', r_pk = ''DEPT_PK'' \<rparr>,
      \<lparr> cons_row.owner = ''HR'', constraint_name = ''EMP_UK'', constraint_type = ''U'',
         table_name = ''EMP'', column_name = ''DEPT_ID'', r_owner = [], r_table_name = [], r_pk = [] \<rparr>,
      \<lparr> cons_row.owner = ''HR'', constraint_name = ''EMP_UK'', constraint_type = ''U'',
         table_name = ''EMP'', column_name = ''ID'', r_owner = [], r_table_name = [], r_pk = [] \<rparr>]"

definition col_rows_unnamed :: "col_row list" where
  "col_rows_unnamed =
     [\<lparr> col_row.owner = ''HR'', table_name = [], column_name = ''A'',
         data_type = ''DATE'', tab_comment = [], col_comment = [] \<rparr>,
      \<lparr> col_row.owner = ''HR'', table_name = ''EMP'', column_name = ''ID'',
         data_type = ''DATE'', tab_comment = [], col_comment = [] \<rparr>]"

definition source_HR :: source where
  "source_HR = Database (Rows (map Row cons_rows_HR)) (Rows (map Row col_rows_HR)) None"

text \<open>
  Owners that leave the separator of an identifier where it is: no \<^verbatim>\<open>__\<close> inside
  and no \<^verbatim>\<open>_\<close> at the end. \<open>sep_free\<close> says both at once.
\<close>

fun contains_Dot :: "string \<Rightarrow> bool" where
  "contains_Dot (c # d # cs) = ((c = CHR ''_'' \<and> d = CHR ''_'') \<or> contains_Dot (d # cs))"
| "contains_Dot cs = False"

definition ends_in_underscore :: "string \<Rightarrow> bool" where
  "ends_in_underscore s = (s \<noteq> [] \<and> last s = CHR ''_'')"

fun sep_free :: "string \<Rightarrow> bool" where
  "sep_free [] = True"
| "sep_free [c] = (c \<noteq> CHR ''_'')"
| "sep_free (c # d # cs) = (\<not> (c = CHR ''_'' \<and> d = CHR ''_'') \<and> sep_free (d # cs))"

text \<open>
  The group key with the length of a part counted in characters, as the
  specification words it: the characters of a UTF-8 text are its bytes that are not
  continuation bytes (\<^verbatim>\<open>0x80\<close> to \<^verbatim>\<open>0xBF\<close>).
\<close>

definition utf8_characters :: "string \<Rightarrow> nat" where
  "utf8_characters s =
     length (filter (\<lambda>c. (of_char c :: nat) < 128 \<or> 192 \<le> (of_char c :: nat)) s)"

definition group_key_by_characters :: "string \<Rightarrow> string" where
  "group_key_by_characters s =
     (case List.find (\<lambda>p. utf8_characters p > 2) (drop 1 (SplitN s (CHR ''_'') 3)) of
        Some p \<Rightarrow> p | None \<Rightarrow> s)"

text \<open>A table that has only its owner and its name.\<close>

definition table_named :: "string \<Rightarrow> string \<Rightarrow> Table" where
  "table_named ow nm =
     \<lparr> Table.Owner = ow, Table.Name = nm, Table.Comment = [], Table.Columns = [],
       Constraints = [] \<rparr>"

section \<open>Properties of the group key\<close>

lemma SplitN_length: "length (SplitN s sep n) \<le> n"
  by (induction s sep n rule: SplitN.induct) auto

lemma Join_SplitN: "0 < n \<Longrightarrow> Join (SplitN s sep n) [sep] = s"
proof (induction s sep n rule: SplitN.induct)
  case (3 s sep n)
  show ?case
  proof (cases "sep \<in> set s")
    case False
    then show ?thesis by simp
  next
    case True
    let ?rest = "tl (dropWhile (\<lambda>c. c \<noteq> sep) s)"
    have ne: "SplitN ?rest sep (Suc n) \<noteq> []"
      by (cases n) auto
    then obtain p ps where ps: "SplitN ?rest sep (Suc n) = p # ps"
      by (cases "SplitN ?rest sep (Suc n)") auto
    have ih: "Join (SplitN ?rest sep (Suc n)) [sep] = ?rest"
      using 3 True by simp
    have dw: "dropWhile (\<lambda>c. c \<noteq> sep) s \<noteq> []"
      using True by (simp add: dropWhile_eq_Nil_conv)
    have hd: "hd (dropWhile (\<lambda>c. c \<noteq> sep) s) = sep"
      using hd_dropWhile [OF dw] by simp
    have "s = takeWhile (\<lambda>c. c \<noteq> sep) s @ dropWhile (\<lambda>c. c \<noteq> sep) s"
      by simp
    also have "dropWhile (\<lambda>c. c \<noteq> sep) s = sep # ?rest"
      using dw hd by (cases "dropWhile (\<lambda>c. c \<noteq> sep) s") auto
    finally have s: "s = takeWhile (\<lambda>c. c \<noteq> sep) s @ sep # ?rest" .
    have "Join (SplitN s sep (Suc (Suc n))) [sep]
          = takeWhile (\<lambda>c. c \<noteq> sep) s @ [sep] @ Join (p # ps) [sep]"
      using True ps by simp
    also have "\<dots> = takeWhile (\<lambda>c. c \<noteq> sep) s @ sep # ?rest"
      using ih ps by simp
    finally show ?thesis using s by simp
  qed
qed simp_all

lemma grp_loop_find:
  "grp_loop s i parts =
     (case List.find (\<lambda>p. length p > 2) (drop (1 - i) parts) of Some p \<Rightarrow> p | None \<Rightarrow> s)"
proof (induction parts arbitrary: i)
  case Nil
  then show ?case by simp
next
  case (Cons part parts)
  show ?case
  proof (cases i)
    case 0
    then show ?thesis using Cons [of "Suc 0"] by simp
  next
    case (Suc k)
    then show ?thesis using Cons [of "Suc i"] by simp
  qed
qed

text \<open>
  Claim C8, as stated: a part counts when its length exceeds 2 characters. The code
  takes \<^verbatim>\<open>len(part)\<close>, the number of bytes. For the name \<^verbatim>\<open>A_\<close> followed by
  \<^verbatim>\<open>e\<close> with an acute accent (the bytes \<^verbatim>\<open>0xC3 0xA9\<close>) and \<^verbatim>\<open>b\<close>, the second
  part has 2 characters and 3 bytes: the code returns that part, the rule of the
  claim the whole name.
\<close>

theorem grp_counts_bytes_counterexample:
  "grp [CHR ''A'', CHR ''_'', CHR 0xC3, CHR 0xA9, CHR ''b''] = [CHR 0xC3, CHR 0xA9, CHR ''b'']
   \<and> utf8_characters [CHR 0xC3, CHR 0xA9, CHR ''b''] = 2
   \<and> length [CHR 0xC3, CHR 0xA9, CHR ''b''] = 3
   \<and> group_key_by_characters [CHR ''A'', CHR ''_'', CHR 0xC3, CHR 0xA9, CHR ''b'']
       = [CHR ''A'', CHR ''_'', CHR 0xC3, CHR 0xA9, CHR ''b'']"
  by code_simp

text \<open>
  Claim C8, amended: the group key splits its argument on \<^verbatim>\<open>_\<close> into at most 3
  parts (which, joined by \<^verbatim>\<open>_\<close>, give the argument back) and returns the first
  part at index 1 or more that is longer than 2 bytes, or else the whole argument; so
  \<^verbatim>\<open>ORDER_ITEM_DETAIL\<close> gives \<^verbatim>\<open>ITEM\<close>, \<^verbatim>\<open>X\<close> gives \<^verbatim>\<open>X\<close> and
  \<^verbatim>\<open>AB_C\<close> gives \<^verbatim>\<open>AB_C\<close>.
\<close>

theorem grp_first_long_part:
  "length (SplitN s (CHR ''_'') 3) \<le> 3
   \<and> Join (SplitN s (CHR ''_'') 3) ''_'' = s
   \<and> grp s = (case List.find (\<lambda>p. length p > 2) (drop 1 (SplitN s (CHR ''_'') 3)) of
               Some p \<Rightarrow> p | None \<Rightarrow> s)
   \<and> grp ''ORDER_ITEM_DETAIL'' = ''ITEM''
   \<and> grp ''X'' = ''X''
   \<and> grp ''AB_C'' = ''AB_C''"
proof -
  have a: "length (SplitN s (CHR ''_'') 3) \<le> 3"
    by (rule SplitN_length)
  have b: "Join (SplitN s (CHR ''_'') 3) ''_'' = s"
    using Join_SplitN [of 3 s "CHR ''_''"] by simp
  have c: "grp s = (case List.find (\<lambda>p. length p > 2) (drop 1 (SplitN s (CHR ''_'') 3)) of
               Some p \<Rightarrow> p | None \<Rightarrow> s)"
    unfolding grp_def using grp_loop_find [of s 0] by simp
  have d: "grp ''ORDER_ITEM_DETAIL'' = ''ITEM''"
    by (simp add: grp_def numeral_3_eq_3)
  have e: "grp ''X'' = ''X''"
    by (simp add: grp_def numeral_3_eq_3)
  have f: "grp ''AB_C'' = ''AB_C''"
    by (simp add: grp_def numeral_3_eq_3)
  from a b c d e f show ?thesis by blast
qed

section \<open>The row merger\<close>

text \<open>
  \<open>runs\<close> cuts a stream into its maximal runs: the runs put back together are the
  stream, every run is non-empty and of one key, and the key changes from each run
  to the next.
\<close>

lemma runs_concat: "concat (runs key xs) = xs"
  by (induction key xs rule: runs.induct) simp_all

lemma runs_one_key: "run \<in> set (runs key xs) \<Longrightarrow> run \<noteq> [] \<and> (\<forall>y\<in>set run. key y = key (hd run))"
proof (induction key xs rule: runs.induct)
  case (1 key)
  then show ?case by simp
next
  case (2 key x xs)
  from "2.prems" have "run = x # takeWhile (\<lambda>y. key y = key x) xs
      \<or> run \<in> set (runs key (dropWhile (\<lambda>y. key y = key x) xs))"
    by simp
  then show ?case
  proof
    assume r: "run = x # takeWhile (\<lambda>y. key y = key x) xs"
    have "key y = key x" if "y \<in> set run" for y
    proof (cases "y = x")
      case True
      then show ?thesis by simp
    next
      case False
      with that r have "y \<in> set (takeWhile (\<lambda>y. key y = key x) xs)" by simp
      then show ?thesis by (rule set_takeWhileD [THEN conjunct2])
    qed
    moreover have "hd run = x" "run \<noteq> []" using r by simp_all
    ultimately show ?thesis by blast
  next
    assume "run \<in> set (runs key (dropWhile (\<lambda>y. key y = key x) xs))"
    then show ?thesis by (rule "2.IH")
  qed
qed

lemma runs_key_changes:
  "runs key xs = a # b # rest \<Longrightarrow> key (hd b) \<noteq> key (hd a)"
proof (cases xs)
  case Nil
  assume "runs key xs = a # b # rest"
  with Nil show ?thesis by simp
next
  case (Cons x xs')
  assume r: "runs key xs = a # b # rest"
  let ?d = "dropWhile (\<lambda>y. key y = key x) xs'"
  from r Cons have a: "a = x # takeWhile (\<lambda>y. key y = key x) xs'" and d: "runs key ?d = b # rest"
    by simp_all
  from d obtain y ys where dy: "?d = y # ys"
    by (cases ?d) auto
  have "\<not> key y = key x"
    using hd_dropWhile [of "\<lambda>y. key y = key x" xs'] dy by simp
  moreover have "hd b = y"
    using d dy by auto
  ultimately show ?thesis using a by simp
qed

lemma readTables_loop_runs:
  "\<forall>r\<in>set rs. col_row.table_name r \<noteq> [] \<Longrightarrow> Table.Name tp \<noteq> [] \<Longrightarrow>
   readTables_loop L (map Row rs) tables tp =
     (tables @
      tp\<lparr>Table.Columns := Table.Columns tp @
           map (column_of L) (takeWhile (\<lambda>r. table_key r = (Table.Owner tp, Table.Name tp)) rs)\<rparr>
      # map (table_of_run L)
          (runs table_key (dropWhile (\<lambda>r. table_key r = (Table.Owner tp, Table.Name tp)) rs)),
      None)"
proof (induction rs arbitrary: tables tp)
  case Nil
  then show ?case by simp
next
  case (Cons r rs)
  have nm: "col_row.table_name r \<noteq> []" and rest: "\<forall>r\<in>set rs. col_row.table_name r \<noteq> []"
    using Cons.prems(1) by auto
  show ?case
  proof (cases "table_key r = (Table.Owner tp, Table.Name tp)")
    case True
    let ?tp = "tp\<lparr>Table.Columns := Table.Columns tp @ [column_of L r]\<rparr>"
    have "readTables_loop L (map Row (r # rs)) tables tp = readTables_loop L (map Row rs) tables ?tp"
      using True Cons.prems(2) by (auto simp: table_key_def table_of_def)
    also have "\<dots> = (tables @
      ?tp\<lparr>Table.Columns := Table.Columns ?tp @
           map (column_of L) (takeWhile (\<lambda>r. table_key r = (Table.Owner ?tp, Table.Name ?tp)) rs)\<rparr>
      # map (table_of_run L)
          (runs table_key (dropWhile (\<lambda>r. table_key r = (Table.Owner ?tp, Table.Name ?tp)) rs)),
      None)"
      using Cons.IH [OF rest, of ?tp tables] Cons.prems(2) by simp
    finally show ?thesis using True by simp
  next
    case False
    let ?ta = "table_of L r"
    have ta: "Table.Name ?ta \<noteq> []" "(Table.Owner ?ta, Table.Name ?ta) = table_key r"
      using nm by (simp_all add: table_of_def table_key_def)
    have "readTables_loop L (map Row (r # rs)) tables tp
          = readTables_loop L (map Row rs) (tables @ [tp]) ?ta"
      using False Cons.prems(2) by (auto simp: table_key_def table_of_def)
    also have "\<dots> = ((tables @ [tp]) @
      ?ta\<lparr>Table.Columns := Table.Columns ?ta @
           map (column_of L) (takeWhile (\<lambda>x. table_key x = table_key r) rs)\<rparr>
      # map (table_of_run L)
          (runs table_key (dropWhile (\<lambda>x. table_key x = table_key r) rs)),
      None)"
      using Cons.IH [OF rest ta(1), of "tables @ [tp]"] ta(2) by simp
    finally show ?thesis using False by (simp add: table_of_def)
  qed
qed

lemma readTables_runs:
  assumes "\<forall>r\<in>set rows. col_row.table_name r \<noteq> []"
  shows "readTables L (Rows (map Row rows)) = (map (table_of_run L) (runs table_key rows), None)"
proof (cases rows)
  case Nil
  then show ?thesis by (simp add: readTables_def zero_Table_def)
next
  case (Cons r rs)
  let ?ta = "table_of L r"
  have ta: "Table.Name ?ta \<noteq> []" "(Table.Owner ?ta, Table.Name ?ta) = table_key r"
    using assms Cons by (simp_all add: table_of_def table_key_def)
  have rest: "\<forall>r\<in>set rs. col_row.table_name r \<noteq> []"
    using assms Cons by simp
  have "readTables L (Rows (map Row rows)) = readTables_loop L (map Row rs) [] ?ta"
    using Cons by (simp add: readTables_def zero_Table_def)
  then show ?thesis
    using readTables_loop_runs [OF rest ta(1), of L "[]"] ta(2) Cons
    by (simp add: table_of_def)
qed

lemma lookup_flush:
  "lookup (flush m cp) k = lookup m k @ (if map_key cp = k then [cp] else [])"
  by (simp add: flush_def lookup_def map_key_def Let_def)

lemma same_constraint_key:
  "same_constraint (constraint_of r) cp \<longleftrightarrow> constraint_key r = key_of cp"
  by (auto simp: same_constraint_def constraint_of_def constraint_key_def key_of_def)

lemma readConstraints_loop_runs:
  "\<forall>r\<in>set rs. constraint_name r \<noteq> [] \<Longrightarrow> Constraint.Name cp \<noteq> [] \<Longrightarrow>
   snd (readConstraints_loop (map Row rs) m cp) = None \<and>
   lookup (fst (readConstraints_loop (map Row rs) m cp)) k =
     lookup m k @ filter (\<lambda>c. map_key c = k)
       (cp\<lparr>TableConstraint.Columns := TableConstraint.Columns cp @
             map cons_row.column_name (takeWhile (\<lambda>r. constraint_key r = key_of cp) rs)\<rparr>
        # map constraint_of_run
            (runs constraint_key (dropWhile (\<lambda>r. constraint_key r = key_of cp) rs)))"
proof (induction rs arbitrary: m cp)
  case Nil
  then show ?case by (simp add: lookup_flush map_key_def)
next
  case (Cons r rs)
  have nm: "constraint_name r \<noteq> []" and rest: "\<forall>r\<in>set rs. constraint_name r \<noteq> []"
    using Cons.prems(1) by auto
  show ?case
  proof (cases "constraint_key r = key_of cp")
    case True
    let ?cp = "cp\<lparr>TableConstraint.Columns := TableConstraint.Columns cp @ [cons_row.column_name r]\<rparr>"
    have step: "readConstraints_loop (map Row (r # rs)) m cp = readConstraints_loop (map Row rs) m ?cp"
      using True Cons.prems(2) by (simp add: same_constraint_key)
    have k: "key_of ?cp = key_of cp" "Constraint.Name ?cp \<noteq> []"
      using Cons.prems(2) by (simp_all add: key_of_def)
    show ?thesis
      using Cons.IH [OF rest k(2), of m] True unfolding step k(1)
      by (simp add: map_key_def)
  next
    case False
    let ?ca = "constraint_of r"
    have ca: "Constraint.Name ?ca \<noteq> []" "key_of ?ca = constraint_key r"
      using nm by (simp_all add: constraint_of_def constraint_key_def key_of_def)
    have step: "readConstraints_loop (map Row (r # rs)) m cp
          = readConstraints_loop (map Row rs) (flush m cp) ?ca"
      using False Cons.prems(2) by (simp add: same_constraint_key)
    show ?thesis
      using Cons.IH [OF rest ca(1), of "flush m cp"] False unfolding step ca(2)
      by (simp add: lookup_flush constraint_of_def)
  qed
qed

lemma readConstraints_runs:
  assumes "\<forall>r\<in>set rows. constraint_name r \<noteq> []"
  shows "snd (readConstraints (Rows (map Row rows))) = None \<and>
         lookup (fst (readConstraints (Rows (map Row rows)))) k =
           filter (\<lambda>c. map_key c = k) (map constraint_of_run (runs constraint_key rows))"
proof (cases rows)
  case Nil
  then show ?thesis by (simp add: readConstraints_def zero_Constraint_def lookup_def)
next
  case (Cons r rs)
  let ?ca = "constraint_of r"
  have ca: "Constraint.Name ?ca \<noteq> []" "key_of ?ca = constraint_key r"
    using assms Cons by (simp_all add: constraint_of_def constraint_key_def key_of_def)
  have rest: "\<forall>r\<in>set rs. constraint_name r \<noteq> []"
    using assms Cons by simp
  have step: "readConstraints (Rows (map Row rows)) = readConstraints_loop (map Row rs) Map.empty ?ca"
    using Cons by (simp add: readConstraints_def zero_Constraint_def)
  show ?thesis
    using readConstraints_loop_runs [OF rest ca(1), of Map.empty k] Cons
    unfolding step ca(2)
    by (simp add: constraint_of_def lookup_def)
qed

text \<open>
  Claim C2, as stated, for every stream: one entity per maximal run. It fails on a
  stream with a row whose table name is empty: both readers take an empty
  \<^verbatim>\<open>Name\<close> of the pending entity to mean that there is no pending entity, so the
  run of such a row is dropped. Here the stream has two runs and the reader returns
  one table.
\<close>

theorem row_merger_unnamed_counterexample:
  "length (runs table_key col_rows_unnamed) = 2
   \<and> map (map col_row.table_name) (runs table_key col_rows_unnamed) = [[[]], [''EMP'']]
   \<and> map Table.Name (fst (readTables ascii_lib (Rows (map Row col_rows_unnamed)))) = [''EMP'']"
  by (simp add: col_rows_unnamed_def table_key_def readTables_def zero_Table_def table_of_def)

text \<open>
  Claim C2, amended: on a stream in which every row has a non-empty name (the table
  name of a column row, the constraint name of a constraint row) and no row fails to
  scan, each reader returns no error and exactly one entity per maximal run of
  consecutive rows with the same key, holding the run's items in row order:
  \<^verbatim>\<open>readTables\<close> the list of these tables in stream order,
  \<^verbatim>\<open>readConstraints\<close> the map that has under every key \<^verbatim>\<open>owner.table\<close> the
  constraints of that key, in stream order.
\<close>

theorem row_merger_runs:
  assumes "\<forall>r\<in>set rows. col_row.table_name r \<noteq> []"
      and "\<forall>r\<in>set crows. constraint_name r \<noteq> []"
    shows "readTables L (Rows (map Row rows)) = (map (table_of_run L) (runs table_key rows), None)
         \<and> snd (readConstraints (Rows (map Row crows))) = None
         \<and> (\<forall>k. lookup (fst (readConstraints (Rows (map Row crows)))) k =
                  filter (\<lambda>c. map_key c = k) (map constraint_of_run (runs constraint_key crows)))"
  using readTables_runs [OF assms(1)] readConstraints_runs [OF assms(2)] by simp

theorem row_merger_runs_witness:
  "map (\<lambda>t. (Table.Owner t, Table.Name t, Table.Comment t, map Column.Name (Table.Columns t)))
       (fst (readTables ascii_lib (Rows (map Row col_rows_HR))))
     = [(''HR'', ''DEPT'', ''departments'', [''ID'', ''NAME'']),
        (''HR'', ''EMP'', [], [''ID'', ''DEPT_ID''])]
   \<and> snd (readTables ascii_lib (Rows (map Row col_rows_HR))) = None
   \<and> snd (readConstraints (Rows (map Row cons_rows_HR))) = None
   \<and> map (\<lambda>c. (Constraint.Name c, TableConstraint.Columns c))
         (lookup (fst (readConstraints (Rows (map Row cons_rows_HR)))) ''HR.EMP'')
     = [(''EMP_DEPT_FK'', [''DEPT_ID'']), (''EMP_UK'', [''DEPT_ID'', ''ID''])]"
proof -
  have a: "\<forall>r\<in>set col_rows_HR. col_row.table_name r \<noteq> []"
    by (simp add: col_rows_HR_def)
  have b: "\<forall>r\<in>set cons_rows_HR. constraint_name r \<noteq> []"
    by (simp add: cons_rows_HR_def)
  have c: "map (\<lambda>t. (Table.Owner t, Table.Name t, Table.Comment t, map Column.Name (Table.Columns t)))
             (map (table_of_run ascii_lib) (runs table_key col_rows_HR))
           = [(''HR'', ''DEPT'', ''departments'', [''ID'', ''NAME'']),
              (''HR'', ''EMP'', [], [''ID'', ''DEPT_ID''])]"
    by (simp add: col_rows_HR_def table_key_def column_of_def ascii_lib_def is_space_def)
  have d: "map (\<lambda>c. (Constraint.Name c, TableConstraint.Columns c))
             (filter (\<lambda>c. map_key c = ''HR.EMP'')
                (map constraint_of_run (runs constraint_key cons_rows_HR)))
           = [(''EMP_DEPT_FK'', [''DEPT_ID'']), (''EMP_UK'', [''DEPT_ID'', ''ID''])]"
    by (simp add: cons_rows_HR_def constraint_key_def map_key_def)
  from row_merger_runs [OF a b, of ascii_lib] c d show ?thesis
    by simp
qed

section \<open>Node identifiers are not unique\<close>

lemma replDot_append: "replDot (a @ b) = replDot a @ replDot b"
  by (simp add: replDot_def)

lemma replDot_id: "CHR ''.'' \<notin> set s \<Longrightarrow> CHR ''$'' \<notin> set s \<Longrightarrow> replDot s = s"
  by (induction s) (auto simp: replDot_def)

lemma name_pair: "name [a, b] = replDot a @ ''__'' @ replDot b"
  by (simp add: name_def replDot_append Dot_def) (simp add: replDot_def)

lemma sep_free_iff: "sep_free s \<longleftrightarrow> \<not> contains_Dot s \<and> \<not> ends_in_underscore s"
  by (induction s rule: sep_free.induct) (simp_all add: ends_in_underscore_def)

lemma sep_free_tl: "sep_free (c # s) \<Longrightarrow> sep_free s"
  by (cases s) simp_all

lemma sep_free_no_prefix: "sep_free s \<Longrightarrow> s @ t \<noteq> CHR ''_'' # CHR ''_'' # u \<or> s = []"
proof (cases s)
  case Nil
  then show ?thesis by simp
next
  case (Cons c s')
  assume f: "sep_free s"
  show ?thesis
  proof (cases s')
    case Nil
    with Cons f show ?thesis by simp
  next
    case (Cons d s'')
    with \<open>s = c # s'\<close> f show ?thesis by auto
  qed
qed

lemma split_at_first_Dot:
  "sep_free a \<Longrightarrow> sep_free b \<Longrightarrow>
   a @ CHR ''_'' # CHR ''_'' # x = b @ CHR ''_'' # CHR ''_'' # y \<Longrightarrow> a = b \<and> x = y"
proof (induction a arbitrary: b)
  case Nil
  from sep_free_no_prefix [OF Nil.prems(2), of "CHR ''_'' # CHR ''_'' # y" x] Nil.prems(3)
  have "b = []" by auto
  with Nil.prems(3) show ?case by simp
next
  case (Cons c a')
  from sep_free_no_prefix [OF Cons.prems(1), of "CHR ''_'' # CHR ''_'' # x" y] Cons.prems(3)
  have "b \<noteq> []" by auto
  then obtain c' b' where b: "b = c' # b'" by (cases b) auto
  from Cons.prems(3) b have "c = c'" and
      e: "a' @ CHR ''_'' # CHR ''_'' # x = b' @ CHR ''_'' # CHR ''_'' # y"
    by simp_all
  from Cons.IH [OF sep_free_tl [OF Cons.prems(1)] sep_free_tl e] Cons.prems(2) b \<open>c = c'\<close>
  show ?case by simp
qed

text \<open>
  Claim C4, as stated: distinct (owner, name) pairs get distinct identifiers. It
  fails: a dot is rewritten to the very separator that joins owner and name, a dollar
  to an underscore, and the separator can straddle the place where owner and name
  meet. In each line below two pairs get one identifier; the second pair of each
  line has a plain owner and a plain name.
\<close>

theorem name_not_injective_counterexample:
  "name [''A.B'', ''C''] = ''A__B__C'' \<and> name [''A'', ''B.C''] = ''A__B__C''
   \<and> name [''A.B'', ''C''] = name [''A'', ''B__C'']
   \<and> name [''A$B'', ''C''] = name [''A_B'', ''C'']
   \<and> name [''A__B'', ''C''] = name [''A'', ''B__C'']
   \<and> name [''A_'', ''B''] = name [''A'', ''_B'']
   \<and> name [''A'', ''B.C''] = name [''A'', ''B__C'']
   \<and> name [''A'', ''B$''] = name [''A'', ''B_'']"
  by (simp add: name_def replDot_def Dot_def)

text \<open>
  Claim C4, amended: the identifier determines the pair among the pairs whose owner
  contains no \<^verbatim>\<open>.\<close>, no \<^verbatim>\<open>$\<close> and no \<^verbatim>\<open>__\<close> and does not end in
  \<^verbatim>\<open>_\<close>, and whose name contains no \<^verbatim>\<open>.\<close> and no \<^verbatim>\<open>$\<close>. Single
  underscores inside an owner, and any underscores in a name, do no harm.
\<close>

theorem name_injective_on_plain_names:
  assumes "CHR ''.'' \<notin> set ow" "CHR ''$'' \<notin> set ow"
      and "\<not> contains_Dot ow" "\<not> ends_in_underscore ow"
      and "CHR ''.'' \<notin> set ow'" "CHR ''$'' \<notin> set ow'"
      and "\<not> contains_Dot ow'" "\<not> ends_in_underscore ow'"
      and "CHR ''.'' \<notin> set nm" "CHR ''$'' \<notin> set nm"
      and "CHR ''.'' \<notin> set nm'" "CHR ''$'' \<notin> set nm'"
      and "name [ow, nm] = name [ow', nm']"
    shows "ow = ow' \<and> nm = nm'"
proof -
  have l: "name [ow, nm] = ow @ CHR ''_'' # CHR ''_'' # nm"
    using assms(1,2,9,10) by (simp add: name_pair replDot_id)
  have r: "name [ow', nm'] = ow' @ CHR ''_'' # CHR ''_'' # nm'"
    using assms(5,6,11,12) by (simp add: name_pair replDot_id)
  have e: "ow @ CHR ''_'' # CHR ''_'' # nm = ow' @ CHR ''_'' # CHR ''_'' # nm'"
    using assms(13) l r by simp
  have f: "sep_free ow" "sep_free ow'"
    using assms(3,4,7,8) by (simp_all add: sep_free_iff)
  from split_at_first_Dot [OF f e] show ?thesis .
qed

theorem name_injective_on_plain_names_witness:
  "\<not> contains_Dot ''HR_APP'' \<and> \<not> ends_in_underscore ''HR_APP''
   \<and> name [''HR_APP'', ''_EMP__DEPT_''] = ''HR_APP___EMP__DEPT_''
   \<and> (\<exists>ow nm. name [ow, nm] = ''HR_APP___EMP__DEPT_'' \<and> ow = ''HR_APP'' \<and> nm = ''_EMP__DEPT_'')"
proof -
  have a: "CHR ''.'' \<notin> set ''HR_APP''" "CHR ''$'' \<notin> set ''HR_APP''"
          "\<not> contains_Dot ''HR_APP''" "\<not> ends_in_underscore ''HR_APP''"
    by (simp_all add: ends_in_underscore_def)
  have b: "CHR ''.'' \<notin> set ''_EMP__DEPT_''" "CHR ''$'' \<notin> set ''_EMP__DEPT_''"
    by simp_all
  have n: "name [''HR_APP'', ''_EMP__DEPT_''] = ''HR_APP___EMP__DEPT_''"
    by (simp add: name_pair replDot_def)
  from name_injective_on_plain_names [OF a a b b refl] a n show ?thesis
    by simp
qed

section \<open>The comparator of the second sort pass\<close>

text \<open>
  Claim C3: the comparator of the stable pass is a strict order on (owner, group
  key, name). The code breaks it: the branch for the greater owner returns
  \<^verbatim>\<open>true\<close>, so two tables of different owners are each less than the other.
\<close>

theorem byNameGroup_Less_both_ways:
  "byNameGroup_Less (table_named ''A'' ''T'') (table_named ''B'' ''T'')
   \<and> byNameGroup_Less (table_named ''B'' ''T'') (table_named ''A'' ''T'')"
  by (simp add: byNameGroup_Less_def table_named_def)

section \<open>The unique flag\<close>

lemma fold_insert_set: "fold insert xs A = set xs \<union> A"
  by (induction xs arbitrary: A) auto

lemma constraints_loop_uCols:
  "snd (constraints_loop cs t u) =
     u \<union> \<Union> (set (map (\<lambda>c. set (TableConstraint.Columns c))
                 (filter (\<lambda>c. Constraint.Type c = ''P'' \<or> Constraint.Type c = ''U'') cs)))"
  by (induction cs arbitrary: t u) (auto simp: fold_insert_set)

lemma constraints_loop_table:
  "fst (constraints_loop cs t u) =
     t\<lparr>Constraints := Constraints t @
          map TableConstraint.truncate (filter (\<lambda>c. Constraint.Type c = ''R'') cs)\<rparr>"
  by (induction cs arbitrary: t u) auto

lemma assemble_table_eq:
  "assemble_table m t =
     t\<lparr>Constraints := Constraints t @
          map TableConstraint.truncate
            (filter (\<lambda>c. Constraint.Type c = ''R'') (lookup m (Table.Owner t @ ''.'' @ Table.Name t))),
        Table.Columns := map (\<lambda>c. c\<lparr>Unique := \<exists>k\<in>set (lookup m (Table.Owner t @ ''.'' @ Table.Name t)).
              (Constraint.Type k = ''P'' \<or> Constraint.Type k = ''U'')
              \<and> Column.Name c \<in> set (TableConstraint.Columns k)\<rparr>) (Table.Columns t)\<rparr>"
proof -
  let ?cs = "lookup m (Table.Owner t @ ''.'' @ Table.Name t)"
  obtain t' u where l: "constraints_loop ?cs t {} = (t', u)"
    by (cases "constraints_loop ?cs t {}")
  have t': "t' = t\<lparr>Constraints := Constraints t @
          map TableConstraint.truncate (filter (\<lambda>c. Constraint.Type c = ''R'') ?cs)\<rparr>"
    using constraints_loop_table [of ?cs t "{}"] l by simp
  have u: "\<And>x. x \<in> u \<longleftrightarrow> (\<exists>k\<in>set ?cs. (Constraint.Type k = ''P'' \<or> Constraint.Type k = ''U'')
              \<and> x \<in> set (TableConstraint.Columns k))"
    using constraints_loop_uCols [of ?cs t "{}"] l by auto
  show ?thesis
    unfolding assemble_table_def l by (simp add: t' u)
qed

lemma Swap_set: "Swap x i j = Some y \<Longrightarrow> set y = set x"
  by (auto simp: Swap_def index_def set_swap split: option.splits if_splits)

lemma swaps_set: "swaps ss x = Some y \<Longrightarrow> set y = set x"
proof (induction ss arbitrary: x)
  case Nil
  then show ?case by simp
next
  case (Cons s ss)
  obtain i j where s: "s = (i, j)" by (cases s)
  from Cons.prems s obtain x' where x': "Swap x i j = Some x'" and r: "swaps ss x' = Some y"
    by (auto split: option.splits)
  from Cons.IH [OF r] Swap_set [OF x'] show ?case by simp
qed

lemma getTables_set:
  assumes "getTables s1 s2 L src = Some (tables, None)"
  shows "set tables = assemble_table (fst (load L src)) ` set (fst (snd (load L src)))"
proof -
  obtain m ts e where l: "load L src = (m, ts, e)"
    by (cases "load L src")
  from assms l have e: "e = None"
    by (cases e) (auto simp: getTables_def)
  from assms l e obtain ranked where
    a: "swaps (s1 (Reverse byRankSize_Less) (assemble m ts)) (assemble m ts) = Some ranked" and
    b: "swaps (s2 byNameGroup_Less ranked) ranked = Some tables"
    by (auto simp: getTables_def split: option.splits)
  from swaps_set [OF a] swaps_set [OF b] show ?thesis
    by (simp add: l assemble_def)
qed

text \<open>
  Claim C1. In what \<^verbatim>\<open>getTables\<close> returns, a column of a table is flagged
  unique exactly when its name is in the column list of a constraint of type
  \<^verbatim>\<open>P\<close> or \<^verbatim>\<open>U\<close> stored under the table's key \<^verbatim>\<open>owner.name\<close>. The flag is
  set in the assembly loop, whatever it was before, and the two sort passes that
  follow only swap tables, so it holds of the final list.
\<close>

theorem unique_flag_iff_in_key_constraint:
  assumes "getTables sort_Sort sort_Stable L src = Some (tables, None)"
      and "t \<in> set tables"
      and "c \<in> set (Table.Columns t)"
    shows "Unique c \<longleftrightarrow>
           (\<exists>k\<in>set (lookup (fst (load L src)) (Table.Owner t @ ''.'' @ Table.Name t)).
              (Constraint.Type k = ''P'' \<or> Constraint.Type k = ''U'')
              \<and> Column.Name c \<in> set (TableConstraint.Columns k))"
proof -
  let ?m = "fst (load L src)"
  from getTables_set [OF assms(1)] assms(2) obtain t0 where
    t: "t = assemble_table ?m t0"
    by auto
  have key: "Table.Owner t = Table.Owner t0" "Table.Name t = Table.Name t0"
    unfolding t assemble_table_eq by simp_all
  from assms(3) obtain c0 where
    "c = c0\<lparr>Unique := \<exists>k\<in>set (lookup ?m (Table.Owner t0 @ ''.'' @ Table.Name t0)).
              (Constraint.Type k = ''P'' \<or> Constraint.Type k = ''U'')
              \<and> Column.Name c0 \<in> set (TableConstraint.Columns k)\<rparr>"
    unfolding t assemble_table_eq by auto
  then show ?thesis
    unfolding key by simp
qed

theorem unique_flag_iff_in_key_constraint_witness:
  "\<exists>tables t c.
     getTables first_two no_swap ascii_lib source_HR = Some (tables, None)
     \<and> t \<in> set tables \<and> c \<in> set (Table.Columns t)
     \<and> Table.Owner t = ''HR'' \<and> Table.Name t = ''EMP'' \<and> Column.Name c = ''DEPT_ID''
     \<and> Unique c
     \<and> (\<exists>k\<in>set (lookup (fst (load ascii_lib source_HR)) ''HR.EMP'').
           (Constraint.Type k = ''P'' \<or> Constraint.Type k = ''U'')
           \<and> ''DEPT_ID'' \<in> set (TableConstraint.Columns k))"
proof -
  define T where "T = fst (the (getTables first_two no_swap ascii_lib source_HR))"
  define t where "t = T ! 0"
  define c where "c = Table.Columns t ! 1"
  have a: "getTables first_two no_swap ascii_lib source_HR = Some (T, None)"
    unfolding T_def by code_simp
  have "length T = 2"
    unfolding T_def by code_simp
  then have tin: "t \<in> set T"
    unfolding t_def by simp
  have "length (Table.Columns t) = 2"
    unfolding t_def T_def by code_simp
  then have cin: "c \<in> set (Table.Columns t)"
    unfolding c_def by simp
  have d: "Table.Owner t = ''HR''" "Table.Name t = ''EMP''" "Column.Name c = ''DEPT_ID''" "Unique c"
    unfolding c_def t_def T_def by code_simp+
  from unique_flag_iff_in_key_constraint [OF a tin cin] d
  have "\<exists>k\<in>set (lookup (fst (load ascii_lib source_HR)) ''HR.EMP'').
           (Constraint.Type k = ''P'' \<or> Constraint.Type k = ''U'')
           \<and> ''DEPT_ID'' \<in> set (TableConstraint.Columns k)"
    by simp
  with a tin cin d show ?thesis by blast
qed

section \<open>The renderers\<close>

lemma index_first: "index (x # xs) 0 = Some x"
  by (simp add: index_def)

lemma first_column:
  "(if length cols \<noteq> 0 then index cols 0 else Some []) =
     Some (case cols of [] \<Rightarrow> [] | col # rest \<Rightarrow> col)"
  by (cases cols) (simp_all add: index_first)

lemma constraints_DOT_step:
  "constraints_DOT L t (c # cs) bw =
     (if RemoteTable c = [] then constraints_DOT L t cs bw
      else constraints_DOT L t cs
             (bw @ edge_DOT (name [Table.Owner t, Table.Name t]) (port c)
                     (name [RemoteOwner c, RemoteTable c]) (port c) (Quote L (RemoteName c))))"
  unfolding constraints_DOT.simps first_column port_def by simp

lemma constraints_DOT_edges:
  "constraints_DOT L t cs bw =
     Some (bw @ concat (map (\<lambda>c. edge_DOT (name [Table.Owner t, Table.Name t]) (port c)
                                 (name [RemoteOwner c, RemoteTable c]) (port c)
                                 (Quote L (RemoteName c)))
                         (filter (\<lambda>c. RemoteTable c \<noteq> []) cs)))"
  by (induction cs arbitrary: bw) (simp_all add: constraints_DOT_step del: constraints_DOT.simps(2))

lemma edges_DOT_edges:
  "edges_DOT L ts bw =
     Some (bw @ concat (map (\<lambda>(t, c). edge_DOT (name [Table.Owner t, Table.Name t]) (port c)
                                 (name [RemoteOwner c, RemoteTable c]) (port c)
                                 (Quote L (RemoteName c)))
                         (edge_pairs ts)))"
  by (induction ts arbitrary: bw)
     (simp_all add: constraints_DOT_edges edge_pairs_def comp_def)

lemma PrintDOT_document:
  "PrintDOT L w ts =
     (let doc = preamble_DOT L ts
              @ concat (map (\<lambda>(t, c). edge_DOT (name [Table.Owner t, Table.Name t]) (port c)
                                 (name [RemoteOwner c, RemoteTable c]) (port c)
                                 (Quote L (RemoteName c)))
                         (edge_pairs ts))
              @ ''\<newline>}\<newline>''
      in Some (doc, w doc))"
  by (simp add: PrintDOT_def preamble_DOT_def edges_DOT_edges Let_def split: prod.splits)

lemma constraints_GML_step:
  "constraints_GML L t (c # cs) bw =
     (if RemoteTable c = [] then constraints_GML L t cs bw
      else constraints_GML L t cs
             (bw @ edge_GML (name [Table.Owner t, Table.Name t]) (port c)
                     (name [RemoteOwner c, RemoteTable c]) (port c) (Quote L (RemoteName c))))"
  unfolding constraints_GML.simps first_column port_def by simp

lemma constraints_GML_edges:
  "constraints_GML L t cs bw =
     Some (bw @ concat (map (\<lambda>c. edge_GML (name [Table.Owner t, Table.Name t]) (port c)
                                 (name [RemoteOwner c, RemoteTable c]) (port c)
                                 (Quote L (RemoteName c)))
                         (filter (\<lambda>c. RemoteTable c \<noteq> []) cs)))"
  by (induction cs arbitrary: bw) (simp_all add: constraints_GML_step del: constraints_GML.simps(2))

lemma edges_GML_edges:
  "edges_GML L ts bw =
     Some (bw @ concat (map (\<lambda>(t, c). edge_GML (name [Table.Owner t, Table.Name t]) (port c)
                                 (name [RemoteOwner c, RemoteTable c]) (port c)
                                 (Quote L (RemoteName c)))
                         (edge_pairs ts)))"
  by (induction ts arbitrary: bw)
     (simp_all add: constraints_GML_edges edge_pairs_def comp_def)

lemma PrintGML_document:
  "PrintGML L w ts =
     (let doc = preamble_GML L ts
              @ concat (map (\<lambda>(t, c). edge_GML (name [Table.Owner t, Table.Name t]) (port c)
                                 (name [RemoteOwner c, RemoteTable c]) (port c)
                                 (Quote L (RemoteName c)))
                         (edge_pairs ts))
              @ '']\<newline>''
      in Some (doc, w doc))"
  by (simp add: PrintGML_def preamble_GML_def edges_GML_edges Let_def)

lemma nodes_GraphML_DOT: "nodes_GraphML L ts prevGrp bw = nodes_DOT L ts prevGrp bw"
  by (induction ts arbitrary: prevGrp bw) simp_all

lemma edge_GraphML_DOT: "edge_GraphML = edge_DOT"
  by (simp add: fun_eq_iff edge_GraphML_def edge_DOT_def)

lemma constraints_GraphML_DOT: "constraints_GraphML L t cs bw = constraints_DOT L t cs bw"
  by (induction cs arbitrary: bw) (simp_all add: edge_GraphML_DOT split: option.splits)

lemma edges_GraphML_DOT: "edges_GraphML L ts bw = edges_DOT L ts bw"
  by (induction ts arbitrary: bw) (simp_all add: constraints_GraphML_DOT split: option.splits)

lemma PrintGraphML_DOT: "PrintGraphML L w ts = PrintDOT L w ts"
  by (simp add: PrintGraphML_def PrintDOT_def nodes_GraphML_DOT edges_GraphML_DOT)

lemma PrintNodeGraphML_DOT: "PrintNodeGraphML L t w = PrintNodeDOT L t w"
  by (simp add: PrintNodeGraphML_def PrintNodeDOT_def)

lemma columns_DOT_text: "columns_DOT L cols w = w @ concat (map (column_row_text L) cols)"
  by (induction cols arbitrary: w) (simp_all add: column_row_DOT_def column_row_text_def)

lemma PrintNodeDOT_text: "PrintNodeDOT L t w = w @ node_block_DOT L t"
  by (simp add: PrintNodeDOT_def columns_DOT_text node_head_DOT_def node_block_DOT_def)

lemma nodes_DOT_text:
  "(case nodes_DOT L ts before bw of
      (prevGrp, bw') \<Rightarrow> if prevGrp \<noteq> [] then bw' @ ''}\<newline>'' else bw')
   = bw @ cluster_blocks L before ts"
  by (induction ts arbitrary: before bw) (simp_all add: PrintNodeDOT_text)

lemma preamble_DOT_text: "preamble_DOT L ts = ''digraph {\<newline>'' @ cluster_blocks L [] ts"
  using nodes_DOT_text [of L ts "[]" "''digraph {\<newline>''"] by (simp add: preamble_DOT_def)

lemma nodes_GML_text: "nodes_GML L ts bw = bw @ concat (map (node_record_GML L) ts)"
  by (induction ts arbitrary: bw) (simp_all add: PrintNodeGML_def node_record_GML_def)

lemma preamble_GML_text:
  "preamble_GML L ts = ''graph [\<newline>'' @ concat (map (node_record_GML L) ts)"
  by (simp add: preamble_GML_def nodes_GML_text)

lemma edge_DOT_text:
  "edge_DOT src sport dst dport label =
     ''  '' @ src @ '':'' @ sport @ '' -> '' @ dst @ '':'' @ dport
     @ '' [label='' @ label @ ''];\<newline>''"
  by (simp add: edge_DOT_def)

lemma edge_GML_text:
  "edge_GML src sport dst dport label =
     [tab] @ ''edge [\<newline>'' @ [tab, tab] @ ''source '' @ src @ '':'' @ sport
     @ ''\<newline>'' @ [tab, tab] @ ''target '' @ dst @ '':'' @ dport
     @ ''\<newline>'' @ [tab, tab] @ ''label '' @ label @ ''\<newline>'' @ [tab] @ '']\<newline>''"
  by (simp add: edge_GML_def)


text \<open>
  Claim C5: the XML-graph renderer writes a document of the XML graph-interchange
  grammar, with the escaping of that grammar. The code breaks it:
  \<^verbatim>\<open>PrintGraphML\<close> is the text of \<^verbatim>\<open>PrintDOT\<close> once more. On a table whose
  texts hold \<^verbatim>\<open><\<close>, \<^verbatim>\<open>&\<close> and a double quote it writes the very bytes
  \<^verbatim>\<open>PrintDOT\<close> writes: the label of the edge is quoted with a backslash, the way
  \<^verbatim>\<open>%q\<close> does, and the document begins \<^verbatim>\<open>digraph {\<close>, which no XML document
  does.
\<close>

theorem PrintGraphML_writes_DOT_text:
  "PrintGraphML ascii_lib accept [table_EMP] = PrintDOT ascii_lib accept [table_EMP]
   \<and> edges_GraphML ascii_lib [table_EMP] [] =
       Some (''  HR__EMP:ID -> HR__EMP:ID [label=''
             @ [dq, CHR ''x'', CHR 0x5C, dq, CHR ''y'', dq] @ ''];\<newline>'')
   \<and> map_option (\<lambda>(doc, err). (take 9 doc, XML_opens doc, err))
         (PrintGraphML ascii_lib accept [table_EMP])
       = Some (''digraph {'', False, None)"
  by code_simp

text \<open>
  Claim C6. Each renderer's document is its first line and its nodes, then one edge
  statement for each constraint with a non-empty remote table, in order, and nothing
  for the others, then the closing line. The edge statement is spelled out: the port
  of the constraint, its first local column name, stands after the colon behind the
  source identifier and after the colon behind the target identifier. So the table
  that refers to itself through its column \<^verbatim>\<open>ID\<close> gets one edge from
  \<^verbatim>\<open>HR__EMP:ID\<close> to \<^verbatim>\<open>HR__EMP:ID\<close>, and the table whose constraint has no
  remote table gets none.
\<close>

theorem one_edge_per_remote_constraint:
  "PrintDOT L w tables =
     (let doc = ''digraph {\<newline>'' @ cluster_blocks L [] tables
              @ concat (map (\<lambda>(t, c).
                    ''  '' @ name [Table.Owner t, Table.Name t] @ '':'' @ port c
                    @ '' -> '' @ name [RemoteOwner c, RemoteTable c] @ '':'' @ port c
                    @ '' [label='' @ Quote L (RemoteName c) @ ''];\<newline>'')
                  (edge_pairs tables))
              @ ''\<newline>}\<newline>''
      in Some (doc, w doc))
   \<and> PrintGML L w tables =
     (let doc = ''graph [\<newline>'' @ concat (map (node_record_GML L) tables)
              @ concat (map (\<lambda>(t, c).
                    [tab] @ ''edge [\<newline>''
                    @ [tab, tab] @ ''source '' @ name [Table.Owner t, Table.Name t] @ '':'' @ port c
                    @ ''\<newline>''
                    @ [tab, tab] @ ''target '' @ name [RemoteOwner c, RemoteTable c] @ '':'' @ port c
                    @ ''\<newline>''
                    @ [tab, tab] @ ''label '' @ Quote L (RemoteName c) @ ''\<newline>''
                    @ [tab] @ '']\<newline>'')
                  (edge_pairs tables))
              @ '']\<newline>''
      in Some (doc, w doc))
   \<and> PrintGraphML L w tables =
     (let doc = ''digraph {\<newline>'' @ cluster_blocks L [] tables
              @ concat (map (\<lambda>(t, c).
                    ''  '' @ name [Table.Owner t, Table.Name t] @ '':'' @ port c
                    @ '' -> '' @ name [RemoteOwner c, RemoteTable c] @ '':'' @ port c
                    @ '' [label='' @ Quote L (RemoteName c) @ ''];\<newline>'')
                  (edge_pairs tables))
              @ ''\<newline>}\<newline>''
      in Some (doc, w doc))
   \<and> edge_pairs [table_EMP] = [(table_EMP, hd (Constraints table_EMP))]
   \<and> edges_DOT ascii_lib [table_EMP] [] =
       Some (''  HR__EMP:ID -> HR__EMP:ID [label=''
             @ [dq, CHR ''x'', CHR 0x5C, dq, CHR ''y'', dq] @ ''];\<newline>'')
   \<and> edges_GML ascii_lib [table_EMP] [] =
       Some ([tab] @ ''edge [\<newline>'' @ [tab, tab] @ ''source HR__EMP:ID\<newline>''
             @ [tab, tab] @ ''target HR__EMP:ID\<newline>''
             @ [tab, tab] @ ''label '' @ [dq, CHR ''x'', CHR 0x5C, dq, CHR ''y'', dq]
             @ ''\<newline>'' @ [tab] @ '']\<newline>'')
   \<and> edge_pairs [table_PK] = []
   \<and> edges_DOT ascii_lib [table_PK] [] = Some []
   \<and> edges_GML ascii_lib [table_PK] [] = Some []
   \<and> edges_GraphML ascii_lib [table_PK] [] = Some []"
proof -
  have d: "PrintDOT L w tables =
     (let doc = ''digraph {\<newline>'' @ cluster_blocks L [] tables
              @ concat (map (\<lambda>(t, c).
                    ''  '' @ name [Table.Owner t, Table.Name t] @ '':'' @ port c
                    @ '' -> '' @ name [RemoteOwner c, RemoteTable c] @ '':'' @ port c
                    @ '' [label='' @ Quote L (RemoteName c) @ ''];\<newline>'')
                  (edge_pairs tables))
              @ ''\<newline>}\<newline>''
      in Some (doc, w doc))"
    unfolding PrintDOT_document preamble_DOT_text edge_DOT_text by simp
  have g: "PrintGML L w tables =
     (let doc = ''graph [\<newline>'' @ concat (map (node_record_GML L) tables)
              @ concat (map (\<lambda>(t, c).
                    [tab] @ ''edge [\<newline>''
                    @ [tab, tab] @ ''source '' @ name [Table.Owner t, Table.Name t] @ '':'' @ port c
                    @ ''\<newline>''
                    @ [tab, tab] @ ''target '' @ name [RemoteOwner c, RemoteTable c] @ '':'' @ port c
                    @ ''\<newline>''
                    @ [tab, tab] @ ''label '' @ Quote L (RemoteName c) @ ''\<newline>''
                    @ [tab] @ '']\<newline>'')
                  (edge_pairs tables))
              @ '']\<newline>''
      in Some (doc, w doc))"
    unfolding PrintGML_document preamble_GML_text edge_GML_text by simp
  have x: "PrintGraphML L w tables = PrintDOT L w tables"
    by (rule PrintGraphML_DOT)
  have e: "edge_pairs [table_EMP] = [(table_EMP, hd (Constraints table_EMP))]"
          "edge_pairs [table_PK] = []"
    by (simp_all add: edge_pairs_def table_EMP_def table_PK_def)
  have c1: "edges_DOT ascii_lib [table_EMP] [] =
       Some (''  HR__EMP:ID -> HR__EMP:ID [label=''
             @ [dq, CHR ''x'', CHR 0x5C, dq, CHR ''y'', dq] @ ''];\<newline>'')"
    by code_simp
  have c2: "edges_GML ascii_lib [table_EMP] [] =
       Some ([tab] @ ''edge [\<newline>'' @ [tab, tab] @ ''source HR__EMP:ID\<newline>''
             @ [tab, tab] @ ''target HR__EMP:ID\<newline>''
             @ [tab, tab] @ ''label '' @ [dq, CHR ''x'', CHR 0x5C, dq, CHR ''y'', dq]
             @ ''\<newline>'' @ [tab] @ '']\<newline>'')"
    by code_simp
  have c3: "edges_DOT ascii_lib [table_PK] [] = Some []"
           "edges_GML ascii_lib [table_PK] [] = Some []"
           "edges_GraphML ascii_lib [table_PK] [] = Some []"
    by code_simp+
  from d g x e c1 c2 c3 show ?thesis
    by (simp only: simp_thms)
qed




text \<open>
  Claim C10. No renderer panics: the first column is read only after the test that
  there is one. For a constraint with no local column and a remote table, each edge
  loop writes the edge with the empty string as both ports and goes on.
\<close>

theorem edge_loops_total:
  "PrintDOT L w tables \<noteq> None
   \<and> PrintGML L w tables \<noteq> None
   \<and> PrintGraphML L w tables \<noteq> None
   \<and> (TableConstraint.Columns c = [] \<and> RemoteTable c \<noteq> [] \<longrightarrow>
        constraints_DOT L t (c # cs) bw =
          constraints_DOT L t cs
            (bw @ edge_DOT (name [Table.Owner t, Table.Name t]) []
                    (name [RemoteOwner c, RemoteTable c]) [] (Quote L (RemoteName c)))
        \<and> constraints_GML L t (c # cs) bw =
          constraints_GML L t cs
            (bw @ edge_GML (name [Table.Owner t, Table.Name t]) []
                    (name [RemoteOwner c, RemoteTable c]) [] (Quote L (RemoteName c)))
        \<and> constraints_GraphML L t (c # cs) bw =
          constraints_GraphML L t cs
            (bw @ edge_GraphML (name [Table.Owner t, Table.Name t]) []
                    (name [RemoteOwner c, RemoteTable c]) [] (Quote L (RemoteName c))))"
proof -
  have a: "PrintDOT L w tables \<noteq> None" "PrintGML L w tables \<noteq> None"
          "PrintGraphML L w tables \<noteq> None"
    by (simp_all add: PrintGraphML_DOT PrintDOT_document PrintGML_document Let_def)
  have b: "constraints_DOT L t (c # cs) bw =
          constraints_DOT L t cs
            (bw @ edge_DOT (name [Table.Owner t, Table.Name t]) []
                    (name [RemoteOwner c, RemoteTable c]) [] (Quote L (RemoteName c)))
        \<and> constraints_GML L t (c # cs) bw =
          constraints_GML L t cs
            (bw @ edge_GML (name [Table.Owner t, Table.Name t]) []
                    (name [RemoteOwner c, RemoteTable c]) [] (Quote L (RemoteName c)))
        \<and> constraints_GraphML L t (c # cs) bw =
          constraints_GraphML L t cs
            (bw @ edge_GraphML (name [Table.Owner t, Table.Name t]) []
                    (name [RemoteOwner c, RemoteTable c]) [] (Quote L (RemoteName c)))"
    if "TableConstraint.Columns c = []" "RemoteTable c \<noteq> []"
    using that by simp
  from a b show ?thesis by blast
qed

theorem edge_loops_total_witness:
  "TableConstraint.Columns fk_without_columns = []
   \<and> RemoteTable fk_without_columns = ''DEPT''
   \<and> constraints_DOT ascii_lib table_EMP [fk_without_columns] [] =
       Some (''  HR__EMP: -> HR__DEPT: [label='' @ dq # ''DEPT_PK'' @ dq # ''];\<newline>'')
   \<and> constraints_GraphML ascii_lib table_EMP [fk_without_columns] [] =
       Some (''  HR__EMP: -> HR__DEPT: [label='' @ dq # ''DEPT_PK'' @ dq # ''];\<newline>'')
   \<and> constraints_GML ascii_lib table_EMP [fk_without_columns] [] =
       Some (tab # ''edge [\<newline>'' @ tab # tab # ''source HR__EMP:\<newline>''
             @ tab # tab # ''target HR__DEPT:\<newline>''
             @ tab # tab # ''label '' @ dq # ''DEPT_PK'' @ dq # ''\<newline>'' @ tab # '']\<newline>'')"
proof -
  have h: "TableConstraint.Columns fk_without_columns = []"
          "RemoteTable fk_without_columns = ''DEPT''"
    by (simp_all add: fk_without_columns_def)
  have e: "edge_DOT (name [Table.Owner table_EMP, Table.Name table_EMP]) []
             (name [RemoteOwner fk_without_columns, RemoteTable fk_without_columns]) []
             (Quote ascii_lib (RemoteName fk_without_columns))
           = ''  HR__EMP: -> HR__DEPT: [label='' @ dq # ''DEPT_PK'' @ dq # ''];\<newline>''"
          "edge_GML (name [Table.Owner table_EMP, Table.Name table_EMP]) []
             (name [RemoteOwner fk_without_columns, RemoteTable fk_without_columns]) []
             (Quote ascii_lib (RemoteName fk_without_columns))
           = tab # ''edge [\<newline>'' @ tab # tab # ''source HR__EMP:\<newline>''
             @ tab # tab # ''target HR__DEPT:\<newline>''
             @ tab # tab # ''label '' @ dq # ''DEPT_PK'' @ dq # ''\<newline>'' @ tab # '']\<newline>''"
    by code_simp+
  from edge_loops_total [of ascii_lib accept "[]" fk_without_columns table_EMP "[]" "[]"] h e
  show ?thesis
    by (simp add: edge_GraphML_DOT)
qed

section \<open>Further properties of assembly and ordering\<close>

text \<open>
  Assembly appends to a table's constraints the constraints of type \<^verbatim>\<open>R\<close> stored
  under the table's key, in their order, and leaves the owner, the name and the
  names of the columns as they are.
\<close>

theorem foreign_keys_attached_in_order:
  "Constraints (assemble_table constraints t) =
     Constraints t @
     map TableConstraint.truncate
       (filter (\<lambda>c. Constraint.Type c = ''R'')
          (lookup constraints (Table.Owner t @ ''.'' @ Table.Name t)))
   \<and> Table.Owner (assemble_table constraints t) = Table.Owner t
   \<and> Table.Name (assemble_table constraints t) = Table.Name t
   \<and> map Column.Name (Table.Columns (assemble_table constraints t)) = map Column.Name (Table.Columns t)"
  by (simp add: assemble_table_eq comp_def)

text \<open>
  Among the tables of one owner the comparator of the stable pass is asymmetric: it
  compares the group keys and then the names.
\<close>

theorem byNameGroup_Less_asymmetric_in_one_owner:
  "Table.Owner a = Table.Owner b \<Longrightarrow> byNameGroup_Less a b \<Longrightarrow> \<not> byNameGroup_Less b a"
  by (auto simp: byNameGroup_Less_def split: if_splits)

theorem byNameGroup_Less_asymmetric_in_one_owner_witness:
  "byNameGroup_Less (table_named ''HR'' ''DEPT'') (table_named ''HR'' ''EMP'')
   \<and> \<not> byNameGroup_Less (table_named ''HR'' ''EMP'') (table_named ''HR'' ''DEPT'')"
proof -
  have o: "Table.Owner (table_named ''HR'' ''DEPT'') = Table.Owner (table_named ''HR'' ''EMP'')"
    by (simp add: table_named_def)
  have l: "byNameGroup_Less (table_named ''HR'' ''DEPT'') (table_named ''HR'' ''EMP'')"
    by code_simp
  from byNameGroup_Less_asymmetric_in_one_owner [OF o l] l show ?thesis by simp
qed

end
